theory Spec2Isabelle
  imports Complex_Main "HOL-Library.Sublist"
begin

section \<open>Python values used by the script\<close>

text \<open>
  The script \<^verbatim>\<open>scripts/generate_icons.py\<close> works on Python integers (the image
  dimensions and the target sizes), on the floats that true division \<^verbatim>\<open>/ 2\<close> of an
  integer yields, on strings (paths and console lines) and on exceptions.

  Integers are \<open>int\<close>. The floats are modelled as rationals: a Python float holds every
  integer below \<open>2 ^ 53\<close> and every half of one exactly, and image dimensions are far
  below that bound, so no rounding occurs in the four divisions of the script.
\<close>

type_synonym pyfloat = rat

text \<open>\<^verbatim>\<open>str(n)\<close> for an integer, as the f-string \<^verbatim>\<open>f"icon{size}.png"\<close> formats it.\<close>

definition digit_char :: "nat \<Rightarrow> char" where
  "digit_char d = ''0123456789'' ! d"

fun str_nat :: "nat \<Rightarrow> string" where
  "str_nat n = (if n < 10 then [digit_char n] else str_nat (n div 10) @ [digit_char (n mod 10)])"

declare str_nat.simps [simp del]

definition str_int :: "int \<Rightarrow> string" where
  "str_int i = (if i < 0 then CHR ''-'' # str_nat (nat (- i)) else str_nat (nat i))"

text \<open>\<^verbatim>\<open>os.path.join(a, b)\<close> with two arguments, as \<^verbatim>\<open>posixpath.join\<close> computes it.\<close>

definition path_join :: "string \<Rightarrow> string \<Rightarrow> string" where
  "path_join a b =
     (if b \<noteq> [] \<and> hd b = CHR ''/'' then b
      else if a = [] \<or> last a = CHR ''/'' then a @ b
      else a @ ''/'' @ b)"

text \<open>
  \<^verbatim>\<open>round(x)\<close> of a float: to the nearest integer, a tie to the even neighbour. The
  script does not call it; the imaging library applies it to each coordinate of a crop box.
\<close>

definition py_round :: "pyfloat \<Rightarrow> int" where
  "py_round x =
     (let f = \<lfloor>x\<rfloor>; d = x - of_int f
      in if d < 1 / 2 then f else if 1 / 2 < d then f + 1 else if even f then f else f + 1)"

text \<open>
  An exception carries the text that \<^verbatim>\<open>str(e)\<close> returns. The handler of the script is
  \<^verbatim>\<open>except Exception\<close>: it catches the instances of \<^verbatim>\<open>Exception\<close> and lets the other
  instances of \<^verbatim>\<open>BaseException\<close> (\<^verbatim>\<open>KeyboardInterrupt\<close>, \<^verbatim>\<open>SystemExit\<close>) pass.
\<close>

datatype exn = Exception string | Interrupt string

section \<open>Images, files and the library calls\<close>

text \<open>
  An image has a size \<open>(width, height)\<close> and its pixels as a list of rows. A pixel is a
  number, whatever the mode of the image; \<open>0\<close> is the value the library fills with.
\<close>

type_synonym pixel = nat

record image =
  isize :: "int \<times> int"
  rows :: "pixel list list"

definition wf_image :: "image \<Rightarrow> bool" where
  "wf_image img =
     (0 \<le> fst (isize img) \<and> 0 \<le> snd (isize img) \<and>
      length (rows img) = nat (snd (isize img)) \<and>
      list_all (\<lambda>r. length r = nat (fst (isize img))) (rows img))"

type_synonym box = "pyfloat \<times> pyfloat \<times> pyfloat \<times> pyfloat"

datatype resampling = NEAREST | BOX | BILINEAR | HAMMING | BICUBIC | LANCZOS

text \<open>A file holds an image encoded in some format, or bytes that decode to no image.\<close>

datatype disk_file = ImageFile string image | Junk "nat list"

datatype event =
    OpenCall string
  | CropCall image box
  | ResizeCall image "int \<times> int" resampling
  | SaveCall image string string
  | PrintCall string

text \<open>
  The world the script acts on: the file system, and the trace of the calls made so far
  (library calls and \<^verbatim>\<open>print\<close>), oldest first.
\<close>

record world =
  fs :: "string \<rightharpoonup> disk_file"
  events :: "event list"

text \<open>
  What the script does not decide is a parameter: whether a library call fails and with
  which exception (\<open>fault\<close>, asked at each call with the world of that moment), the
  pixels a resampling filter computes (\<open>resample\<close>), and what a failed save leaves at
  its target path (\<open>torn\<close>).
\<close>

record env =
  fault :: "event \<Rightarrow> world \<Rightarrow> exn option"
  resample :: "resampling \<Rightarrow> int \<times> int \<Rightarrow> image \<Rightarrow> pixel list list"
  torn :: "string \<Rightarrow> world \<Rightarrow> disk_file option"

definition log :: "event \<Rightarrow> world \<Rightarrow> world" where
  "log e w = w\<lparr>events := events w @ [e]\<rparr>"

definition quoted :: "string \<Rightarrow> string" where
  "quoted s = [CHR 0x27] @ s @ [CHR 0x27]"

text \<open>
  \<^verbatim>\<open>Image.open(path)\<close>: a missing file raises \<^verbatim>\<open>FileNotFoundError\<close>, a file that is no
  image raises \<^verbatim>\<open>UnidentifiedImageError\<close>; both are instances of \<^verbatim>\<open>Exception\<close>.
\<close>

definition pil_open :: "env \<Rightarrow> string \<Rightarrow> world \<Rightarrow> (exn + image) \<times> world" where
  "pil_open ev path w =
     (case fault ev (OpenCall path) w of
        Some e \<Rightarrow> (Inl e, log (OpenCall path) w)
      | None \<Rightarrow>
          (case fs w path of
             None \<Rightarrow>
               (Inl (Exception (''[Errno 2] No such file or directory: '' @ quoted path)),
                log (OpenCall path) w)
           | Some (Junk bs) \<Rightarrow>
               (Inl (Exception (''cannot identify image file '' @ quoted path)),
                log (OpenCall path) w)
           | Some (ImageFile fmt img) \<Rightarrow> (Inr img, log (OpenCall path) w)))"

text \<open>
  \<^verbatim>\<open>img.crop(box)\<close>: the library rounds the four coordinates with \<^verbatim>\<open>round\<close>; the result
  has the size of the rounded box, and each of its pixels is the pixel of the source at
  the same place, or the fill value outside the source.
\<close>

definition getpixel :: "image \<Rightarrow> int \<Rightarrow> int \<Rightarrow> pixel" where
  "getpixel img x y =
     (if 0 \<le> x \<and> x < fst (isize img) \<and> 0 \<le> y \<and> y < snd (isize img) \<and>
         nat y < length (rows img) \<and> nat x < length (rows img ! nat y)
      then rows img ! nat y ! nat x else 0)"

definition crop_image :: "image \<Rightarrow> int \<times> int \<times> int \<times> int \<Rightarrow> image" where
  "crop_image img b =
     (case b of (x0, y0, x1, y1) \<Rightarrow>
        \<lparr>isize = (max 0 (x1 - x0), max 0 (y1 - y0)),
         rows = map (\<lambda>y. map (\<lambda>x. getpixel img (x0 + int x) (y0 + int y)) [0..<nat (x1 - x0)])
                    [0..<nat (y1 - y0)]\<rparr>)"

definition round_box :: "box \<Rightarrow> int \<times> int \<times> int \<times> int" where
  "round_box b = (case b of (l, t, r, d) \<Rightarrow> (py_round l, py_round t, py_round r, py_round d))"

definition pil_crop :: "env \<Rightarrow> image \<Rightarrow> box \<Rightarrow> world \<Rightarrow> (exn + image) \<times> world" where
  "pil_crop ev img b w =
     (case fault ev (CropCall img b) w of
        Some e \<Rightarrow> (Inl e, log (CropCall img b) w)
      | None \<Rightarrow> (Inr (crop_image img (round_box b)), log (CropCall img b) w))"

text \<open>\<^verbatim>\<open>img.resize(size, filter)\<close>: an image of the requested size.\<close>

definition resize_image :: "env \<Rightarrow> image \<Rightarrow> int \<times> int \<Rightarrow> resampling \<Rightarrow> image" where
  "resize_image ev img sz flt = \<lparr>isize = sz, rows = resample ev flt sz img\<rparr>"

definition pil_resize ::
  "env \<Rightarrow> image \<Rightarrow> int \<times> int \<Rightarrow> resampling \<Rightarrow> world \<Rightarrow> (exn + image) \<times> world" where
  "pil_resize ev img sz flt w =
     (case fault ev (ResizeCall img sz flt) w of
        Some e \<Rightarrow> (Inl e, log (ResizeCall img sz flt) w)
      | None \<Rightarrow> (Inr (resize_image ev img sz flt), log (ResizeCall img sz flt) w))"

text \<open>
  \<^verbatim>\<open>img.save(path, format)\<close>: the file at \<open>path\<close> becomes the encoded image, whatever
  was there. A save that fails changes no other path.
\<close>

definition pil_save :: "env \<Rightarrow> image \<Rightarrow> string \<Rightarrow> string \<Rightarrow> world \<Rightarrow> (exn + unit) \<times> world" where
  "pil_save ev img path fmt w =
     (case fault ev (SaveCall img path fmt) w of
        Some e \<Rightarrow> (Inl e, log (SaveCall img path fmt) (w\<lparr>fs := (fs w)(path := torn ev path w)\<rparr>))
      | None \<Rightarrow> (Inr (), log (SaveCall img path fmt) (w\<lparr>fs := (fs w)(path \<mapsto> ImageFile fmt img)\<rparr>)))"

text \<open>\<^verbatim>\<open>print(s)\<close>: one line on the console; it is taken not to fail.\<close>

definition py_print :: "string \<Rightarrow> world \<Rightarrow> world" where
  "py_print s w = log (PrintCall s) w"

section \<open>The script\<close>

definition input_path :: string where
  "input_path = ''public/Whisk_5e6bbe242133923a5d44834e6368ed79dr.jpeg''"

definition output_dir :: string where
  "output_dir = ''public''"

definition sizes :: "int list" where
  "sizes = [16, 48, 128]"

text \<open>Lines 14 to 20: the crop box computed from \<^verbatim>\<open>img.size\<close>.\<close>

definition crop_box :: "int \<Rightarrow> int \<Rightarrow> box" where
  "crop_box width height =
     (let new_size = min width height;
          left = of_int (width - new_size) / 2;
          top = of_int (height - new_size) / 2;
          right = of_int (width + new_size) / 2;
          bottom = of_int (height + new_size) / 2
      in (left, top, right, bottom))"

definition output_path_of :: "int \<Rightarrow> string" where
  "output_path_of sz = path_join output_dir (''icon'' @ str_int sz @ ''.png'')"

text \<open>
  Lines 24 to 32: the \<^verbatim>\<open>for\<close> loop over the sizes. The result is the exception that
  left the loop, if any.
\<close>

fun sizes_loop :: "env \<Rightarrow> image \<Rightarrow> int list \<Rightarrow> world \<Rightarrow> exn option \<times> world" where
  "sizes_loop ev img_cropped [] w = (None, w)"
| "sizes_loop ev img_cropped (sz # rest) w =
     (case pil_resize ev img_cropped (sz, sz) LANCZOS w of
        (Inl e, w1) \<Rightarrow> (Some e, w1)
      | (Inr img_resized, w1) \<Rightarrow>
          (case pil_save ev img_resized (output_path_of sz) ''PNG'' w1 of
             (Inl e, w2) \<Rightarrow> (Some e, w2)
           | (Inr u, w2) \<Rightarrow>
               sizes_loop ev img_cropped rest
                 (py_print (''Generated: '' @ output_path_of sz) w2)))"

text \<open>
  Lines 12 to 32: the body of the \<^verbatim>\<open>try\<close> statement. Leaving the \<^verbatim>\<open>with\<close> block
  closes the image file and lets an exception pass; the closing writes no file and prints
  nothing, so it is not an event of the trace.
\<close>

definition try_body :: "env \<Rightarrow> world \<Rightarrow> exn option \<times> world" where
  "try_body ev w =
     (case pil_open ev input_path w of
        (Inl e, w1) \<Rightarrow> (Some e, w1)
      | (Inr img, w1) \<Rightarrow>
          (case pil_crop ev img (crop_box (fst (isize img)) (snd (isize img))) w1 of
             (Inl e, w2) \<Rightarrow> (Some e, w2)
           | (Inr img_cropped, w2) \<Rightarrow> sizes_loop ev img_cropped sizes w2))"

text \<open>
  Lines 11 to 35: the whole script. The result is the exception that leaves the script,
  if any; \<open>None\<close> is a normal end.
\<close>

definition generate_icons :: "env \<Rightarrow> world \<Rightarrow> exn option \<times> world" where
  "generate_icons ev w =
     (case try_body ev w of
        (None, w') \<Rightarrow> (None, w')
      | (Some (Exception m), w') \<Rightarrow> (None, py_print (''Error: '' @ m) w')
      | (Some (Interrupt m), w') \<Rightarrow> (Some (Interrupt m), w'))"

text \<open>A run starts on a file system, with an empty trace.\<close>

definition start :: "(string \<rightharpoonup> disk_file) \<Rightarrow> world" where
  "start files = \<lparr>fs = files, events = []\<rparr>"

definition run :: "env \<Rightarrow> (string \<rightharpoonup> disk_file) \<Rightarrow> exn option \<times> world" where
  "run ev files = generate_icons ev (start files)"

text \<open>The lines on the console are the arguments of the \<^verbatim>\<open>print\<close> calls, in order.\<close>

fun printed :: "event list \<Rightarrow> string list" where
  "printed [] = []"
| "printed (PrintCall s # es) = s # printed es"
| "printed (e # es) = printed es"

fun resized :: "event list \<Rightarrow> (image \<times> (int \<times> int) \<times> resampling) list" where
  "resized [] = []"
| "resized (ResizeCall i sz flt # es) = (i, sz, flt) # resized es"
| "resized (e # es) = resized es"

fun saved :: "event list \<Rightarrow> (image \<times> string \<times> string) list" where
  "saved [] = []"
| "saved (SaveCall i p fmt # es) = (i, p, fmt) # saved es"
| "saved (e # es) = saved es"

fun cropped :: "event list \<Rightarrow> (image \<times> box) list" where
  "cropped [] = []"
| "cropped (CropCall i b # es) = (i, b) # cropped es"
| "cropped (e # es) = cropped es"

section \<open>The trace of a run without failure\<close>

text \<open>The three calls of one iteration of the loop that completes.\<close>

definition iter_events :: "env \<Rightarrow> image \<Rightarrow> int \<Rightarrow> event list" where
  "iter_events ev c sz =
     [ResizeCall c (sz, sz) LANCZOS,
      SaveCall (resize_image ev c (sz, sz) LANCZOS) (output_path_of sz) ''PNG'',
      PrintCall (''Generated: '' @ output_path_of sz)]"

definition the_box :: "image \<Rightarrow> box" where
  "the_box img = crop_box (fst (isize img)) (snd (isize img))"

definition the_crop :: "image \<Rightarrow> image" where
  "the_crop img = crop_image img (round_box (the_box img))"

definition full_trace :: "env \<Rightarrow> image \<Rightarrow> event list" where
  "full_trace ev img =
     OpenCall input_path # CropCall img (the_box img) #
     concat (map (iter_events ev (the_crop img)) sizes)"

text \<open>The world after one complete iteration, and the world when the loop starts.\<close>

definition after_iter :: "env \<Rightarrow> image \<Rightarrow> int \<Rightarrow> world \<Rightarrow> world" where
  "after_iter ev c sz w =
     \<lparr>fs = (fs w)(output_path_of sz \<mapsto> ImageFile ''PNG'' (resize_image ev c (sz, sz) LANCZOS)),
      events = events w @ iter_events ev c sz\<rparr>"

definition after_crop :: "(string \<rightharpoonup> disk_file) \<Rightarrow> image \<Rightarrow> world" where
  "after_crop files img = \<lparr>fs = files, events = [OpenCall input_path, CropCall img (the_box img)]\<rparr>"

section \<open>Example inputs\<close>

definition img_4x2 :: image where
  "img_4x2 = \<lparr>isize = (4, 2), rows = [[1, 2, 3, 4], [5, 6, 7, 8]]\<rparr>"

definition img_3x3 :: image where
  "img_3x3 = \<lparr>isize = (3, 3), rows = [[1, 2, 3], [4, 5, 6], [7, 8, 9]]\<rparr>"

definition blank_rows :: "resampling \<Rightarrow> int \<times> int \<Rightarrow> image \<Rightarrow> pixel list list" where
  "blank_rows flt sz img = replicate (nat (snd sz)) (replicate (nat (fst sz)) 0)"

definition first_rows :: "resampling \<Rightarrow> int \<times> int \<Rightarrow> image \<Rightarrow> pixel list list" where
  "first_rows flt sz img = replicate (nat (snd sz)) (replicate (nat (fst sz)) (getpixel img 0 0))"

text \<open>A library in which no call fails.\<close>

definition env_ok :: env where
  "env_ok = \<lparr>fault = (\<lambda>e w. None), resample = blank_rows, torn = (\<lambda>p w. None)\<rparr>"

text \<open>A library in which the save of the second icon fails and leaves a partial file.\<close>

definition env_disk_full :: env where
  "env_disk_full =
     \<lparr>fault = (\<lambda>e w. case e of
                  SaveCall i p fmt \<Rightarrow>
                    if p = ''public/icon48.png''
                    then Some (Exception ''[Errno 28] No space left on device'') else None
                | _ \<Rightarrow> None),
      resample = first_rows,
      torn = (\<lambda>p w. Some (Junk [137, 80, 78, 71]))\<rparr>"

definition files_4x2 :: "string \<rightharpoonup> disk_file" where
  "files_4x2 = [input_path \<mapsto> ImageFile ''JPEG'' img_4x2]"

definition files_3x3 :: "string \<rightharpoonup> disk_file" where
  "files_3x3 = [input_path \<mapsto> ImageFile ''JPEG'' img_3x3]"

definition files_old_icon :: "string \<rightharpoonup> disk_file" where
  "files_old_icon = [''public/icon16.png'' \<mapsto> ImageFile ''PNG'' img_3x3]"

definition img_400x301 :: image where
  "img_400x301 = \<lparr>isize = (400, 301), rows = replicate 301 (replicate 400 0)\<rparr>"

definition files_400x301 :: "string \<rightharpoonup> disk_file" where
  "files_400x301 = [input_path \<mapsto> ImageFile ''JPEG'' img_400x301]"

section \<open>Facts about the Python values\<close>

lemma str_int_16: "str_int 16 = ''16''"
  by (simp add: str_int_def str_nat.simps digit_char_def)

lemma output_path_16: "output_path_of 16 = ''public/icon16.png''"
  by (simp add: output_path_of_def path_join_def output_dir_def str_int_16)

lemma floor_rat_numeral_div [simp]:
  "\<lfloor>numeral a / numeral b :: rat\<rfloor> = numeral a div numeral b"
  using floor_divide_of_int_eq [of "numeral a" "numeral b", where ?'a = rat] by simp


lemma str_int_48: "str_int 48 = ''48''"
  by (simp add: str_int_def str_nat.simps digit_char_def)

lemma str_int_128: "str_int 128 = ''128''"
  by (simp add: str_int_def str_nat.simps digit_char_def)

lemma output_path_48: "output_path_of 48 = ''public/icon48.png''"
  by (simp add: output_path_of_def path_join_def output_dir_def str_int_48)

lemma output_path_128: "output_path_of 128 = ''public/icon128.png''"
  by (simp add: output_path_of_def path_join_def output_dir_def str_int_128)

lemma distinct_output_paths: "distinct (map output_path_of sizes)"
  by (simp add: sizes_def output_path_16 output_path_48 output_path_128)

section \<open>The loop\<close>

lemma pil_resize_world:
  "snd (pil_resize ev c sz f w) = log (ResizeCall c sz f) w"
  by (simp add: pil_resize_def split: option.splits)

lemma pil_save_events:
  "events (snd (pil_save ev i p f w)) = events w @ [SaveCall i p f]"
  by (simp add: pil_save_def log_def split: option.splits)

lemma pil_save_fs_other:
  "q \<noteq> p \<Longrightarrow> fs (snd (pil_save ev i p f w)) q = fs w q"
  by (simp add: pil_save_def log_def split: option.splits)

lemma loop_events_prefix:
  "prefix (events w) (events (snd (sizes_loop ev c szs w))) \<and>
   prefix (events (snd (sizes_loop ev c szs w))) (events w @ concat (map (iter_events ev c) szs))"
proof (induction szs arbitrary: w)
  case Nil
  show ?case by simp
next
  case (Cons sz rest)
  let ?w2 = "py_print (''Generated: '' @ output_path_of sz)
      (snd (pil_save ev (resize_image ev c (sz, sz) LANCZOS) (output_path_of sz) ''PNG''
         (log (ResizeCall c (sz, sz) LANCZOS) w)))"
  from Cons.IH [of ?w2] show ?case
    by (auto simp add: pil_resize_def pil_save_def log_def py_print_def iter_events_def
        split: option.splits dest: append_prefixD)
qed

lemma loop_events_success:
  "fst (sizes_loop ev c szs w) = None \<Longrightarrow>
   events (snd (sizes_loop ev c szs w)) = events w @ concat (map (iter_events ev c) szs)"
proof (induction szs arbitrary: w)
  case Nil
  show ?case by simp
next
  case (Cons sz rest)
  then show ?case
    by (auto simp add: pil_resize_def pil_save_def log_def py_print_def iter_events_def
        split: option.splits)
qed

lemma loop_fs_frame:
  "p \<notin> output_path_of ` set szs \<Longrightarrow> fs (snd (sizes_loop ev c szs w)) p = fs w p"
proof (induction szs arbitrary: w)
  case Nil
  show ?case by simp
next
  case (Cons sz rest)
  then show ?case
    by (auto simp add: pil_resize_def pil_save_def log_def py_print_def
        split: option.splits)
qed


lemma sizes_loop_Cons_cases:
  obtains
    (resize_fails) e where
      "sizes_loop ev c (sz # rest) w = (Some e, log (ResizeCall c (sz, sz) LANCZOS) w)"
  | (save_fails) e w' where
      "sizes_loop ev c (sz # rest) w = (Some e, w')"
      "events w' = events w @ take 2 (iter_events ev c sz)"
      "\<And>q. q \<noteq> output_path_of sz \<Longrightarrow> fs w' q = fs w q"
  | (completes)
      "sizes_loop ev c (sz # rest) w = sizes_loop ev c rest (after_iter ev c sz w)"
proof (cases "fault ev (ResizeCall c (sz, sz) LANCZOS) w")
  case (Some e)
  then have "sizes_loop ev c (sz # rest) w = (Some e, log (ResizeCall c (sz, sz) LANCZOS) w)"
    by (simp add: pil_resize_def)
  then show thesis by (rule resize_fails)
next
  case None
  let ?w1 = "log (ResizeCall c (sz, sz) LANCZOS) w"
  let ?i = "resize_image ev c (sz, sz) LANCZOS"
  let ?p = "output_path_of sz"
  have r: "pil_resize ev c (sz, sz) LANCZOS w = (Inr ?i, ?w1)"
    using None by (simp add: pil_resize_def)
  show thesis
  proof (cases "fault ev (SaveCall ?i ?p ''PNG'') ?w1")
    case (Some e)
    let ?w' = "log (SaveCall ?i ?p ''PNG'') (?w1\<lparr>fs := (fs ?w1)(?p := torn ev ?p ?w1)\<rparr>)"
    have "sizes_loop ev c (sz # rest) w = (Some e, ?w')"
      using r Some by (simp add: pil_save_def)
    moreover have "events ?w' = events w @ take 2 (iter_events ev c sz)"
      by (simp add: log_def iter_events_def)
    moreover have "\<And>q. q \<noteq> ?p \<Longrightarrow> fs ?w' q = fs w q"
      by (simp add: log_def)
    ultimately show thesis by (rule save_fails)
  next
    case None
    have "py_print (''Generated: '' @ ?p)
            (log (SaveCall ?i ?p ''PNG'') (?w1\<lparr>fs := (fs ?w1)(?p \<mapsto> ImageFile ''PNG'' ?i)\<rparr>))
          = after_iter ev c sz w"
      by (simp add: py_print_def log_def after_iter_def iter_events_def)
    then have "sizes_loop ev c (sz # rest) w = sizes_loop ev c rest (after_iter ev c sz w)"
      using r None by (simp add: pil_save_def)
    then show thesis by (rule completes)
  qed
qed

lemma loop_fs_success:
  "fst (sizes_loop ev c szs w) = None \<Longrightarrow> distinct (map output_path_of szs) \<Longrightarrow> s \<in> set szs \<Longrightarrow>
   fs (snd (sizes_loop ev c szs w)) (output_path_of s) =
     Some (ImageFile ''PNG'' (resize_image ev c (s, s) LANCZOS))"
proof (induction szs arbitrary: w)
  case Nil
  then show ?case by simp
next
  case (Cons sz rest)
  from Cons.prems(2) have notin: "output_path_of sz \<notin> output_path_of ` set rest"
    and dist: "distinct (map output_path_of rest)" by simp_all
  show ?case
  proof (cases rule: sizes_loop_Cons_cases [of ev c sz rest w])
    case (resize_fails e)
    with Cons.prems(1) show ?thesis by simp
  next
    case (save_fails e w')
    with Cons.prems(1) show ?thesis by simp
  next
    case completes
    show ?thesis
    proof (cases "s = sz")
      case True
      have "fs (snd (sizes_loop ev c rest (after_iter ev c sz w))) (output_path_of sz)
            = fs (after_iter ev c sz w) (output_path_of sz)"
        using notin by (rule loop_fs_frame)
      then show ?thesis using completes True by (simp add: after_iter_def)
    next
      case False
      with Cons.prems(3) have "s \<in> set rest" by simp
      moreover from Cons.prems(1) completes
      have "fst (sizes_loop ev c rest (after_iter ev c sz w)) = None" by simp
      ultimately show ?thesis using Cons.IH dist completes by simp
    qed
  qed
qed

lemma loop_fs_generated:
  "distinct (map output_path_of szs) \<Longrightarrow> s \<in> set szs \<Longrightarrow>
   PrintCall (''Generated: '' @ output_path_of s) \<in> set (events (snd (sizes_loop ev c szs w))) \<Longrightarrow>
   PrintCall (''Generated: '' @ output_path_of s) \<notin> set (events w) \<Longrightarrow>
   fs (snd (sizes_loop ev c szs w)) (output_path_of s) =
     Some (ImageFile ''PNG'' (resize_image ev c (s, s) LANCZOS))"
proof (induction szs arbitrary: w)
  case Nil
  then show ?case by simp
next
  case (Cons sz rest)
  from Cons.prems(1) have notin: "output_path_of sz \<notin> output_path_of ` set rest"
    and dist: "distinct (map output_path_of rest)" by simp_all
  show ?case
  proof (cases rule: sizes_loop_Cons_cases [of ev c sz rest w])
    case (resize_fails e)
    with Cons.prems(3,4) show ?thesis by (simp add: log_def)
  next
    case (save_fails e w')
    with Cons.prems(3,4) show ?thesis by (simp add: iter_events_def)
  next
    case completes
    show ?thesis
    proof (cases "s = sz")
      case True
      have "fs (snd (sizes_loop ev c rest (after_iter ev c sz w))) (output_path_of sz)
            = fs (after_iter ev c sz w) (output_path_of sz)"
        using notin by (rule loop_fs_frame)
      then show ?thesis using completes True by (simp add: after_iter_def)
    next
      case False
      with Cons.prems(2) have in_rest: "s \<in> set rest" by simp
      with notin have "output_path_of s \<noteq> output_path_of sz" by (metis imageI)
      with Cons.prems(4)
      have "PrintCall (''Generated: '' @ output_path_of s) \<notin> set (events (after_iter ev c sz w))"
        by (simp add: after_iter_def iter_events_def)
      moreover from Cons.prems(3) completes
      have "PrintCall (''Generated: '' @ output_path_of s)
              \<in> set (events (snd (sizes_loop ev c rest (after_iter ev c sz w))))" by simp
      ultimately show ?thesis using Cons.IH [OF dist in_rest] completes by simp
    qed
  qed
qed


section \<open>Projections of the trace\<close>

lemma cropped_append: "cropped (xs @ ys) = cropped xs @ cropped ys"
  by (induction xs rule: cropped.induct) simp_all

lemma resized_append: "resized (xs @ ys) = resized xs @ resized ys"
  by (induction xs rule: resized.induct) simp_all

lemma saved_append: "saved (xs @ ys) = saved xs @ saved ys"
  by (induction xs rule: saved.induct) simp_all

lemma printed_append: "printed (xs @ ys) = printed xs @ printed ys"
  by (induction xs rule: printed.induct) simp_all

lemma cropped_iters: "cropped (concat (map (iter_events ev c) szs)) = []"
  by (induction szs) (simp_all add: cropped_append iter_events_def)

lemma resized_iters:
  "resized (concat (map (iter_events ev c) szs)) = map (\<lambda>sz. (c, (sz, sz), LANCZOS)) szs"
  by (induction szs) (simp_all add: resized_append iter_events_def)

lemma saved_iters:
  "saved (concat (map (iter_events ev c) szs)) =
     map (\<lambda>sz. (resize_image ev c (sz, sz) LANCZOS, output_path_of sz, ''PNG'')) szs"
  by (induction szs) (simp_all add: saved_append iter_events_def)

lemma printed_iters:
  "printed (concat (map (iter_events ev c) szs)) = map (\<lambda>sz. ''Generated: '' @ output_path_of sz) szs"
  by (induction szs) (simp_all add: printed_append iter_events_def)

lemma prefix_cropped: "prefix xs ys \<Longrightarrow> prefix (cropped xs) (cropped ys)"
  by (auto simp add: prefix_def cropped_append)

lemma prefix_resized: "prefix xs ys \<Longrightarrow> prefix (resized xs) (resized ys)"
  by (auto simp add: prefix_def resized_append)

lemma prefix_saved: "prefix xs ys \<Longrightarrow> prefix (saved xs) (saved ys)"
  by (auto simp add: prefix_def saved_append)

lemma prefix_printed: "prefix xs ys \<Longrightarrow> prefix (printed xs) (printed ys)"
  by (auto simp add: prefix_def printed_append)

section \<open>The try block and the handler\<close>

lemma try_body_cases:
  obtains
    (open_fails) e where
      "fst (pil_open ev input_path (start files)) = Inl e"
      "try_body ev (start files) = (Some e, \<lparr>fs = files, events = [OpenCall input_path]\<rparr>)"
  | (crop_fails) fmt img e where
      "files input_path = Some (ImageFile fmt img)"
      "fault ev (OpenCall input_path) (start files) = None"
      "try_body ev (start files) = (Some e, after_crop files img)"
  | (loops) fmt img where
      "files input_path = Some (ImageFile fmt img)"
      "fault ev (OpenCall input_path) (start files) = None"
      "try_body ev (start files) = sizes_loop ev (the_crop img) sizes (after_crop files img)"
proof -
  let ?w1 = "\<lparr>fs = files, events = [OpenCall input_path]\<rparr>"
  have w1: "snd (pil_open ev input_path (start files)) = ?w1"
    by (simp add: pil_open_def log_def start_def split: option.splits disk_file.splits)
  show thesis
  proof (cases "fst (pil_open ev input_path (start files))")
    case (Inl e)
    with w1 have "pil_open ev input_path (start files) = (Inl e, ?w1)"
      by (simp add: prod_eq_iff)
    then have "try_body ev (start files) = (Some e, ?w1)"
      by (simp add: try_body_def)
    with Inl show thesis by (rule open_fails)
  next
    case (Inr img)
    then have nofault: "fault ev (OpenCall input_path) (start files) = None"
      by (auto simp add: pil_open_def split: option.splits)
    with Inr obtain fmt where infile: "files input_path = Some (ImageFile fmt img)"
      by (auto simp add: pil_open_def start_def split: option.splits disk_file.splits)
    from Inr w1 have o: "pil_open ev input_path (start files) = (Inr img, ?w1)"
      by (simp add: prod_eq_iff)
    have l: "log (CropCall img (the_box img)) ?w1 = after_crop files img"
      by (simp add: log_def after_crop_def)
    show thesis
    proof (cases "fault ev (CropCall img (the_box img)) ?w1")
      case (Some e)
      with o l have "try_body ev (start files) = (Some e, after_crop files img)"
        by (simp add: try_body_def pil_crop_def the_box_def)
      with infile nofault show thesis by (rule crop_fails)
    next
      case None
      with o l have "try_body ev (start files)
          = sizes_loop ev (the_crop img) sizes (after_crop files img)"
        by (simp add: try_body_def pil_crop_def the_box_def the_crop_def)
      with infile nofault show thesis by (rule loops)
    qed
  qed
qed

lemma run_unfold:
  "run ev files =
     (case fst (try_body ev (start files)) of
        None \<Rightarrow> (None, snd (try_body ev (start files)))
      | Some (Exception m) \<Rightarrow> (None, py_print (''Error: '' @ m) (snd (try_body ev (start files))))
      | Some (Interrupt m) \<Rightarrow> (Some (Interrupt m), snd (try_body ev (start files))))"
  by (simp add: run_def generate_icons_def split: prod.splits option.splits exn.splits)

lemma run_fs: "fs (snd (run ev files)) = fs (snd (try_body ev (start files)))"
  by (simp add: run_unfold py_print_def log_def split: option.splits exn.splits)

lemma run_events:
  "events (snd (run ev files)) =
     events (snd (try_body ev (start files))) @
     (case fst (try_body ev (start files)) of
        Some (Exception m) \<Rightarrow> [PrintCall (''Error: '' @ m)] | _ \<Rightarrow> [])"
  by (simp add: run_unfold py_print_def log_def split: option.splits exn.splits)


lemma try_body_trace:
  obtains
    (no_image) e where
      "fst (pil_open ev input_path (start files)) = Inl e"
      "try_body ev (start files) = (Some e, \<lparr>fs = files, events = [OpenCall input_path]\<rparr>)"
  | (image) fmt img where
      "files input_path = Some (ImageFile fmt img)"
      "fault ev (OpenCall input_path) (start files) = None"
      "prefix [OpenCall input_path, CropCall img (the_box img)]
         (events (snd (try_body ev (start files))))"
      "prefix (events (snd (try_body ev (start files)))) (full_trace ev img)"
      "fst (try_body ev (start files)) = None \<Longrightarrow>
         events (snd (try_body ev (start files))) = full_trace ev img"
proof (cases rule: try_body_cases [of ev files])
  case (open_fails e)
  then show thesis by (rule no_image)
next
  case (crop_fails fmt img e)
  from crop_fails(3)
  have "prefix [OpenCall input_path, CropCall img (the_box img)]
         (events (snd (try_body ev (start files))))"
    and "prefix (events (snd (try_body ev (start files)))) (full_trace ev img)"
    and "fst (try_body ev (start files)) = None \<Longrightarrow>
         events (snd (try_body ev (start files))) = full_trace ev img"
    by (simp_all add: after_crop_def full_trace_def)
  with crop_fails(1,2) show thesis by (rule image)
next
  case (loops fmt img)
  have ac: "events (after_crop files img) = [OpenCall input_path, CropCall img (the_box img)]"
    by (simp add: after_crop_def)
  from loop_events_prefix [of "after_crop files img" ev "the_crop img" sizes]
  have "prefix [OpenCall input_path, CropCall img (the_box img)]
         (events (snd (try_body ev (start files))))"
    and "prefix (events (snd (try_body ev (start files)))) (full_trace ev img)"
    by (simp_all add: loops(3) ac full_trace_def)
  moreover have "fst (try_body ev (start files)) = None \<Longrightarrow>
         events (snd (try_body ev (start files))) = full_trace ev img"
    using loop_events_success [of ev "the_crop img" sizes "after_crop files img"]
    by (simp add: loops(3) ac full_trace_def)
  ultimately show thesis using loops(1,2) by - (rule image)
qed

section \<open>Rounding and the crop of the whole image\<close>

lemma half_int_iff: "(of_int k / 2 :: rat) \<in> \<int> \<longleftrightarrow> even k"
proof
  assume "(of_int k / 2 :: rat) \<in> \<int>"
  then obtain m :: int where "(of_int k / 2 :: rat) = of_int m" by (auto elim: Ints_cases)
  then have "(of_int k :: rat) = of_int (2 * m)" by simp
  then have "k = 2 * m" by (simp only: of_int_eq_iff)
  then show "even k" by simp
next
  assume "even k"
  then obtain m where "k = 2 * m" by (auto elim: evenE)
  then show "(of_int k / 2 :: rat) \<in> \<int>" by simp
qed

lemma py_round_near: "\<bar>of_int (py_round x) - x\<bar> \<le> 1 / 2"
proof -
  define d where "d = x - of_int \<lfloor>x\<rfloor>"
  have d: "0 \<le> d" "d < 1" unfolding d_def by linarith+
  have x: "x = of_int \<lfloor>x\<rfloor> + d" by (simp add: d_def)
  have r: "py_round x =
      (if d < 1 / 2 then \<lfloor>x\<rfloor> else if 1 / 2 < d then \<lfloor>x\<rfloor> + 1
       else if even \<lfloor>x\<rfloor> then \<lfloor>x\<rfloor> else \<lfloor>x\<rfloor> + 1)"
    by (simp add: py_round_def Let_def d_def)
  have "\<bar>of_int (py_round x) - (of_int \<lfloor>x\<rfloor> + d)\<bar> \<le> 1 / 2"
    unfolding r using d by (simp split: if_splits)
  with x show ?thesis by simp
qed

lemma py_round_of_int: "py_round (of_int k) = k"
  by (simp add: py_round_def Let_def)

lemma py_round_0: "py_round 0 = 0"
  by (simp add: py_round_def Let_def)

lemma twice_half: "2 * (of_int k / 2 :: rat) \<in> \<int>"
  by simp

lemma cropped_full_trace: "cropped (full_trace ev img) = [(img, the_box img)]"
  by (simp add: full_trace_def cropped_iters)

lemma crop_full_image:
  assumes "wf_image img"
  shows "crop_image img (0, 0, fst (isize img), snd (isize img)) = img"
proof -
  let ?W = "fst (isize img)" and ?H = "snd (isize img)"
  from assms have W: "0 \<le> ?W" and H: "0 \<le> ?H" and len: "length (rows img) = nat ?H"
    and row: "\<And>r. r \<in> set (rows img) \<Longrightarrow> length r = nat ?W"
    by (simp_all add: wf_image_def list_all_iff)
  have "map (\<lambda>y. map (\<lambda>x. getpixel img (int x) (int y)) [0..<nat ?W]) [0..<nat ?H] = rows img"
  proof (rule nth_equalityI)
    show "length (map (\<lambda>y. map (\<lambda>x. getpixel img (int x) (int y)) [0..<nat ?W]) [0..<nat ?H])
          = length (rows img)"
      by (simp add: len)
  next
    fix y
    assume "y < length (map (\<lambda>y. map (\<lambda>x. getpixel img (int x) (int y)) [0..<nat ?W]) [0..<nat ?H])"
    then have y: "y < nat ?H" by simp
    then have ylen: "length (rows img ! y) = nat ?W"
      using row [of "rows img ! y"] len by simp
    have "map (\<lambda>x. getpixel img (int x) (int y)) [0..<nat ?W] = rows img ! y"
    proof (rule nth_equalityI)
      show "length (map (\<lambda>x. getpixel img (int x) (int y)) [0..<nat ?W]) = length (rows img ! y)"
        by (simp add: ylen)
    next
      fix x
      assume "x < length (map (\<lambda>x. getpixel img (int x) (int y)) [0..<nat ?W])"
      then have x: "x < nat ?W" by simp
      from x y have "int x < ?W" and "int y < ?H" by linarith+
      with x y ylen len show "map (\<lambda>x. getpixel img (int x) (int y)) [0..<nat ?W] ! x = rows img ! y ! x"
        by (simp add: getpixel_def)
    qed
    with y show "map (\<lambda>y. map (\<lambda>x. getpixel img (int x) (int y)) [0..<nat ?W]) [0..<nat ?H] ! y
                 = rows img ! y"
      by simp
  qed
  then have "rows (crop_image img (0, 0, ?W, ?H)) = rows img"
    by (simp add: crop_image_def case_prod_beta)
  moreover from W H have "isize (crop_image img (0, 0, ?W, ?H)) = isize img"
    by (simp add: crop_image_def case_prod_beta)
  ultimately show ?thesis by (simp add: image.equality)
qed

lemma set_printed: "s \<in> set (printed es) \<longleftrightarrow> PrintCall s \<in> set es"
  by (induction es rule: printed.induct) auto

lemma full_trace_expand:
  "full_trace ev img =
     [OpenCall input_path, CropCall img (the_box img),
      ResizeCall (the_crop img) (16, 16) LANCZOS,
      SaveCall (resize_image ev (the_crop img) (16, 16) LANCZOS) ''public/icon16.png'' ''PNG'',
      PrintCall ''Generated: public/icon16.png'',
      ResizeCall (the_crop img) (48, 48) LANCZOS,
      SaveCall (resize_image ev (the_crop img) (48, 48) LANCZOS) ''public/icon48.png'' ''PNG'',
      PrintCall ''Generated: public/icon48.png'',
      ResizeCall (the_crop img) (128, 128) LANCZOS,
      SaveCall (resize_image ev (the_crop img) (128, 128) LANCZOS) ''public/icon128.png'' ''PNG'',
      PrintCall ''Generated: public/icon128.png'']"
  by (simp add: full_trace_def sizes_def iter_events_def output_path_16 output_path_48
      output_path_128)

lemma resized_full_trace:
  "resized (full_trace ev img) = map (\<lambda>sz. (the_crop img, (sz, sz), LANCZOS)) sizes"
  by (simp add: full_trace_def resized_iters)

lemma saved_full_trace:
  "saved (full_trace ev img) =
     map (\<lambda>sz. (resize_image ev (the_crop img) (sz, sz) LANCZOS, output_path_of sz, ''PNG'')) sizes"
  by (simp add: full_trace_def saved_iters)

lemma printed_full_trace:
  "printed (full_trace ev img) = map (\<lambda>sz. ''Generated: '' @ output_path_of sz) sizes"
  by (simp add: full_trace_def printed_iters)

lemma run_cropped: "cropped (events (snd (run ev files))) = cropped (events (snd (try_body ev (start files))))"
  by (simp add: run_events cropped_append split: option.splits exn.splits)

lemma run_resized: "resized (events (snd (run ev files))) = resized (events (snd (try_body ev (start files))))"
  by (simp add: run_events resized_append split: option.splits exn.splits)

lemma run_saved: "saved (events (snd (run ev files))) = saved (events (snd (try_body ev (start files))))"
  by (simp add: run_events saved_append split: option.splits exn.splits)

lemma no_fault_loop:
  "(\<And>e w. fault ev e w = None) \<Longrightarrow> fst (sizes_loop ev c szs w) = None"
  by (induction szs arbitrary: w) (simp_all add: pil_resize_def pil_save_def)

lemma no_fault_success:
  assumes "\<And>e w. fault ev e w = None" and "files input_path = Some (ImageFile fmt img)"
  shows "fst (try_body ev (start files)) = None"
  using assms by (simp add: try_body_def pil_open_def pil_crop_def start_def no_fault_loop)

lemma success_trace:
  assumes "fst (try_body ev (start files)) = None"
  obtains fmt img where
    "files input_path = Some (ImageFile fmt img)"
    "events (snd (try_body ev (start files))) = full_trace ev img"
    "\<And>s. s \<in> set sizes \<Longrightarrow>
       fs (snd (try_body ev (start files))) (output_path_of s) =
         Some (ImageFile ''PNG'' (resize_image ev (the_crop img) (s, s) LANCZOS))"
    "\<And>p. p \<notin> output_path_of ` set sizes \<Longrightarrow> fs (snd (try_body ev (start files))) p = files p"
proof (cases rule: try_body_cases [of ev files])
  case (open_fails e)
  with assms show thesis by simp
next
  case (crop_fails fmt img e)
  with assms show thesis by simp
next
  case (loops fmt img)
  from assms loops(3) have ok: "fst (sizes_loop ev (the_crop img) sizes (after_crop files img)) = None"
    by simp
  have "events (snd (try_body ev (start files))) = full_trace ev img"
    using loop_events_success [OF ok] by (simp add: loops(3) after_crop_def full_trace_def)
  moreover have "\<And>s. s \<in> set sizes \<Longrightarrow>
       fs (snd (try_body ev (start files))) (output_path_of s) =
         Some (ImageFile ''PNG'' (resize_image ev (the_crop img) (s, s) LANCZOS))"
    using loop_fs_success [OF ok distinct_output_paths] by (simp add: loops(3))
  moreover have "\<And>p. p \<notin> output_path_of ` set sizes \<Longrightarrow>
       fs (snd (try_body ev (start files))) p = files p"
    using loop_fs_frame [of _ sizes ev "the_crop img" "after_crop files img"]
    by (simp add: loops(3) after_crop_def)
  ultimately show thesis using loops(1) by - (rule that)
qed

lemma run_never_raises_exception: "fst (run ev files) \<noteq> Some (Exception m)"
  by (simp add: run_unfold split: option.splits exn.splits)

lemma printed_before_failure:
  "prefix (printed (events (snd (try_body ev (start files)))))
     (map (\<lambda>sz. ''Generated: '' @ output_path_of sz) sizes)"
proof (cases rule: try_body_trace [of ev files])
  case (no_image e)
  then show ?thesis by simp
next
  case (image fmt img)
  from prefix_printed [OF image(4)] show ?thesis by (simp add: printed_full_trace)
qed

lemma written_files_stay:
  assumes "N \<in> set sizes"
    and "''Generated: '' @ output_path_of N \<in> set (printed (events (snd (try_body ev (start files)))))"
  shows "\<exists>i. fs (snd (try_body ev (start files))) (output_path_of N) = Some (ImageFile ''PNG'' i) \<and>
             isize i = (N, N)"
proof (cases rule: try_body_cases [of ev files])
  case (open_fails e)
  with assms(2) show ?thesis by simp
next
  case (crop_fails fmt img e)
  with assms(2) show ?thesis by (simp add: after_crop_def)
next
  case (loops fmt img)
  have "PrintCall (''Generated: '' @ output_path_of N) \<notin> set (events (after_crop files img))"
    by (simp add: after_crop_def)
  moreover have "PrintCall (''Generated: '' @ output_path_of N)
      \<in> set (events (snd (sizes_loop ev (the_crop img) sizes (after_crop files img))))"
    using assms(2) by (simp add: loops(3) set_printed)
  ultimately have "fs (snd (sizes_loop ev (the_crop img) sizes (after_crop files img)))
      (output_path_of N) = Some (ImageFile ''PNG'' (resize_image ev (the_crop img) (N, N) LANCZOS))"
    using loop_fs_generated [OF distinct_output_paths assms(1)] by blast
  then show ?thesis by (simp add: loops(3) resize_image_def)
qed

lemmas script_defs = try_body_def pil_open_def pil_crop_def pil_resize_def pil_save_def
  sizes_def start_def log_def py_print_def output_path_16 output_path_48 output_path_128

lemma run_projections:
  assumes "files input_path = Some (ImageFile fmt img)"
  shows "prefix (cropped (events (snd (run ev files)))) [(img, the_box img)]"
    and "prefix (resized (events (snd (run ev files))))
           (map (\<lambda>sz. (the_crop img, (sz, sz), LANCZOS)) sizes)"
    and "prefix (saved (events (snd (run ev files))))
           (map (\<lambda>sz. (resize_image ev (the_crop img) (sz, sz) LANCZOS, output_path_of sz, ''PNG''))
              sizes)"
proof -
  have "prefix (cropped (events (snd (run ev files)))) [(img, the_box img)] \<and>
        prefix (resized (events (snd (run ev files))))
           (map (\<lambda>sz. (the_crop img, (sz, sz), LANCZOS)) sizes) \<and>
        prefix (saved (events (snd (run ev files))))
           (map (\<lambda>sz. (resize_image ev (the_crop img) (sz, sz) LANCZOS, output_path_of sz, ''PNG''))
              sizes)"
  proof (cases rule: try_body_trace [of ev files])
    case (no_image e)
    then show ?thesis by (simp add: run_cropped run_resized run_saved)
  next
    case (image fmt' img')
    with assms have same: "img' = img" by simp
    from image(4) have p: "prefix (events (snd (try_body ev (start files)))) (full_trace ev img)"
      by (simp add: same)
    from prefix_cropped [OF p] prefix_resized [OF p] prefix_saved [OF p]
    show ?thesis
      by (simp add: run_cropped run_resized run_saved cropped_full_trace resized_full_trace
          saved_full_trace)
  qed
  then show "prefix (cropped (events (snd (run ev files)))) [(img, the_box img)]"
    and "prefix (resized (events (snd (run ev files))))
           (map (\<lambda>sz. (the_crop img, (sz, sz), LANCZOS)) sizes)"
    and "prefix (saved (events (snd (run ev files))))
           (map (\<lambda>sz. (resize_image ev (the_crop img) (sz, sz) LANCZOS, output_path_of sz, ''PNG''))
              sizes)"
    by blast+
qed

lemma run_projections_no_image:
  assumes "\<And>fmt img. files input_path \<noteq> Some (ImageFile fmt img)"
  shows "cropped (events (snd (run ev files))) = []"
    and "resized (events (snd (run ev files))) = []"
    and "saved (events (snd (run ev files))) = []"
proof -
  have "events (snd (try_body ev (start files))) = [OpenCall input_path]"
  proof (cases rule: try_body_cases [of ev files])
    case (open_fails e)
    then show ?thesis by simp
  next
    case (crop_fails fmt img e)
    from assms [of fmt img] crop_fails(1) show ?thesis by simp
  next
    case (loops fmt img)
    from assms [of fmt img] loops(1) show ?thesis by simp
  qed
  then show "cropped (events (snd (run ev files))) = []"
    and "resized (events (snd (run ev files))) = []"
    and "saved (events (snd (run ev files))) = []"
    by (simp_all add: run_cropped run_resized run_saved)
qed

lemma output_path_inj:
  "a \<in> set sizes \<Longrightarrow> b \<in> set sizes \<Longrightarrow> output_path_of a = output_path_of b \<Longrightarrow> a = b"
  using distinct_output_paths by (auto simp add: distinct_map inj_on_def)

lemma sizes_increasing: "sorted_wrt (<) sizes"
  by (simp add: sizes_def)

text \<open>
  The rounding is the library's, not the script's. When the width is even and the smaller
  height is odd, both fractional edges are ties and each goes to its even neighbour, so
  the pixel region that the library cuts is one column narrower or wider than the box.
\<close>

lemma rounded_box_400_301: "round_box (crop_box 400 301) = (50, 0, 350, 301)"
  by (simp add: crop_box_def round_box_def py_round_def Let_def)

lemma rounded_box_2_1: "round_box (crop_box 2 1) = (0, 0, 2, 1)"
  by code_simp

text \<open>
  Before the library rounds it, the box the script computes is the largest centered square
  of the image: its edge is \<open>min W H\<close> on each axis, it lies inside the image, no
  square inside the image has a longer edge, and the two margins of an axis are equal.
  After the rounding the two margins of an axis differ by at most one pixel.
\<close>

lemma unrounded_box_centered_square:
  assumes "crop_box W H = (l, t, r, b)"
  shows "r - l = of_int (min W H) \<and> b - t = of_int (min W H) \<and>
         l - 0 = of_int W - r \<and> t - 0 = of_int H - b \<and>
         0 \<le> l \<and> r \<le> of_int W \<and> 0 \<le> t \<and> b \<le> of_int H \<and>
         (\<forall>x y s :: rat. 0 \<le> x \<and> x + s \<le> of_int W \<and> 0 \<le> y \<and> y + s \<le> of_int H \<longrightarrow>
            s \<le> of_int (min W H)) \<and>
         \<bar>(py_round l - 0) - (W - py_round r)\<bar> \<le> 1 \<and>
         \<bar>(py_round t - 0) - (H - py_round b)\<bar> \<le> 1"
proof -
  from assms have l: "l = of_int (W - min W H) / 2" and t: "t = of_int (H - min W H) / 2"
    and r: "r = of_int (W + min W H) / 2" and b: "b = of_int (H + min W H) / 2"
    by (simp_all add: crop_box_def Let_def)
  have edges: "r - l = of_int (min W H) \<and> b - t = of_int (min W H)"
    unfolding l t r b by (simp add: min_def field_simps)
  have lr: "l + r = of_int W" and tb: "t + b = of_int H"
    unfolding l t r b by (simp_all add: field_simps)
  have inside: "0 \<le> l \<and> r \<le> of_int W \<and> 0 \<le> t \<and> b \<le> of_int H"
    unfolding l t r b by (simp add: min_def)
  have largest: "\<forall>x y s :: rat. 0 \<le> x \<and> x + s \<le> of_int W \<and> 0 \<le> y \<and> y + s \<le> of_int H \<longrightarrow>
            s \<le> of_int (min W H)"
    by (auto simp add: min_def)
  have near: "\<bar>of_int (p + q - n) :: rat\<bar> \<le> 1"
    if "\<bar>of_int p - x\<bar> \<le> 1 / 2" and "\<bar>of_int q - y\<bar> \<le> 1 / 2" and "x + y = of_int n"
    for p q n :: int and x y :: rat
  proof -
    have "(of_int (p + q - n) :: rat) = (of_int p - x) + (of_int q - y)"
      using that(3) by simp
    with that(1,2) show ?thesis by linarith
  qed
  have int1: "\<bar>k\<bar> \<le> 1" if "\<bar>of_int k :: rat\<bar> \<le> 1" for k :: int
  proof -
    from that have "(of_int \<bar>k\<bar> :: rat) \<le> of_int 1" by simp
    then show ?thesis by (simp only: of_int_le_iff)
  qed
  have "\<bar>py_round l + py_round r - W\<bar> \<le> 1"
    using near [OF py_round_near [of l] py_round_near [of r] lr] by (rule int1)
  moreover have "\<bar>py_round t + py_round b - H\<bar> \<le> 1"
    using near [OF py_round_near [of t] py_round_near [of b] tb] by (rule int1)
  ultimately have rounded: "\<bar>(py_round l - 0) - (W - py_round r)\<bar> \<le> 1 \<and>
         \<bar>(py_round t - 0) - (H - py_round b)\<bar> \<le> 1"
    by (simp add: algebra_simps)
  from lr tb have centered: "l - 0 = of_int W - r \<and> t - 0 = of_int H - b"
    by (simp add: algebra_simps)
  from edges centered inside largest rounded show ?thesis by blast
qed

lemma py_round_half: "py_round (of_int k + 1 / 2) = (if even k then k else k + 1)"
proof -
  have "\<lfloor>(of_int k :: rat) + 1 / 2\<rfloor> = k" by linarith
  then show ?thesis by (simp add: py_round_def Let_def)
qed

lemma rounded_edge_off_by_one:
  assumes "odd n" and "odd (D - n)"
  shows "\<bar>(py_round (of_int (D + n) / 2) - py_round (of_int (D - n) / 2)) - n\<bar> = 1"
proof -
  from assms(2) obtain k where k: "D - n = 2 * k + 1" by (rule oddE)
  then have D: "D + n = 2 * (k + n) + 1" by simp
  have lo: "(of_int (D - n) / 2 :: rat) = of_int k + 1 / 2"
    unfolding k by simp
  have hi: "(of_int (D + n) / 2 :: rat) = of_int (k + n) + 1 / 2"
    unfolding D by simp
  show ?thesis
    unfolding lo hi py_round_half using assms(1) by (cases "even k") simp_all
qed

lemma rounded_edge_exact:
  "py_round (of_int (n + n) / 2) - py_round (of_int (n - n) / 2) = n"
proof -
  have "(of_int (n + n) / 2 :: rat) = of_int n" by simp
  then show ?thesis by (simp add: py_round_of_int py_round_0)
qed

lemma isize_the_crop:
  assumes "isize img = (W, H)"
  shows "isize (the_crop img) =
     (max 0 (py_round (of_int (W + min W H) / 2) - py_round (of_int (W - min W H) / 2)),
      max 0 (py_round (of_int (H + min W H) / 2) - py_round (of_int (H - min W H) / 2)))"
  using assms
  by (simp add: the_crop_def the_box_def crop_box_def round_box_def crop_image_def Let_def)

section \<open>The claims\<close>

text \<open>
  C1. When the input file holds an image of width \<open>W\<close> and height \<open>H\<close> and the open
  call does not fail, the run makes exactly one crop call, on that image, and the box it
  passes is \<open>((W - n) / 2, (H - n) / 2, (W + n) / 2, (H + n) / 2)\<close> with
  \<open>n = min W H\<close>. For a 400 by 300 image the box is left 50, top 0, right 350, bottom 300.
\<close>

theorem crop_box_passed:
  assumes "files input_path = Some (ImageFile fmt img)"
    and "fault ev (OpenCall input_path) (start files) = None"
    and "isize img = (W, H)"
  shows "cropped (events (snd (run ev files))) =
           [(img, ((of_int W - of_int (min W H)) / 2, (of_int H - of_int (min W H)) / 2,
                   (of_int W + of_int (min W H)) / 2, (of_int H + of_int (min W H)) / 2))]
         \<and> crop_box 400 300 = (50, 0, 350, 300)"
proof -
  have box: "the_box img =
      ((of_int W - of_int (min W H)) / 2, (of_int H - of_int (min W H)) / 2,
       (of_int W + of_int (min W H)) / 2, (of_int H + of_int (min W H)) / 2)"
    using assms(3) by (simp add: the_box_def crop_box_def Let_def)
  have "cropped (events (snd (try_body ev (start files)))) = [(img, the_box img)]"
  proof (cases rule: try_body_trace [of ev files])
    case (no_image e)
    with assms(1,2) show ?thesis by (simp add: pil_open_def start_def)
  next
    case (image fmt' img')
    with assms(1) have same: "img' = img" by simp
    from image(3) have "prefix [(img, the_box img)] (cropped (events (snd (try_body ev (start files)))))"
      using prefix_cropped [of "[OpenCall input_path, CropCall img (the_box img)]"] same by simp
    moreover from image(4)
    have "prefix (cropped (events (snd (try_body ev (start files))))) [(img, the_box img)]"
      using prefix_cropped [of _ "full_trace ev img"] same by (simp add: cropped_full_trace)
    ultimately show ?thesis by (rule prefix_order.antisym [symmetric])
  qed
  then have "cropped (events (snd (run ev files))) = [(img, the_box img)]"
    by (simp add: run_events cropped_append split: option.splits exn.splits)
  moreover have "crop_box 400 300 = (50, 0, 350, 300)"
    by (simp add: crop_box_def Let_def)
  ultimately show ?thesis using box by simp
qed

theorem crop_box_passed_witness:
  "files_4x2 input_path = Some (ImageFile ''JPEG'' img_4x2) \<and>
   fault env_ok (OpenCall input_path) (start files_4x2) = None \<and>
   isize img_4x2 = (4, 2) \<and>
   cropped (events (snd (run env_ok files_4x2))) = [(img_4x2, (1, 0, 3, 2))] \<and>
   crop_box 400 300 = (50, 0, 350, 300)"
  using crop_box_passed [of files_4x2 "''JPEG''" img_4x2 env_ok 4 2]
  by (simp add: files_4x2_def env_ok_def img_4x2_def)

text \<open>
  C2. The region that the run crops is not always the square of edge \<open>min W H\<close> that
  the comment of line 13 and the claim promise. When the smaller dimension is odd and the
  excess of the larger over it is odd too, the two edges on the longer axis are
  half-integers, the library rounds both ties to the even neighbour, and the cropped image
  is one pixel wider or narrower than \<open>min W H\<close> on that axis while it is \<open>min W H\<close> on
  the other: it is not a square.
\<close>

theorem cropped_region_not_square:
  assumes "isize img = (W, H)" and "0 < W" and "0 < H"
    and "odd (min W H)" and "odd (max W H - min W H)"
  shows "the_box img = crop_box W H \<and>
         the_crop img = crop_image img (round_box (crop_box W H)) \<and>
         isize (the_crop img) \<noteq> (min W H, min W H) \<and>
         fst (isize (the_crop img)) \<noteq> snd (isize (the_crop img)) \<and>
         (H < W \<longrightarrow> snd (isize (the_crop img)) = H \<and> \<bar>fst (isize (the_crop img)) - H\<bar> = 1) \<and>
         (W < H \<longrightarrow> fst (isize (the_crop img)) = W \<and> \<bar>snd (isize (the_crop img)) - W\<bar> = 1)"
proof -
  have b: "the_box img = crop_box W H"
    using assms(1) by (simp add: the_box_def)
  have c: "the_crop img = crop_image img (round_box (crop_box W H))"
    by (simp add: the_crop_def b)
  from assms(5) have ne: "W \<noteq> H" by (auto simp add: max_def min_def)
  show ?thesis
  proof (cases "H < W")
    case True
    then have m: "min W H = H" "max W H = W" by simp_all
    from assms(4,5) have o: "odd H" "odd (W - H)" by (simp_all add: m)
    define w where "w = py_round (of_int (W + H) / 2) - py_round (of_int (W - H) / 2)"
    have w1: "\<bar>w - H\<bar> = 1"
      unfolding w_def using rounded_edge_off_by_one [OF o] .
    with assms(3) have w0: "0 \<le> w" by linarith
    have "isize (the_crop img) = (max 0 w, max 0 H)"
      using isize_the_crop [OF assms(1)] rounded_edge_exact [of H] by (simp add: m w_def)
    with w0 assms(3) have s: "isize (the_crop img) = (w, H)" by simp
    from w1 have "w \<noteq> H" by linarith
    with s w1 True b c show ?thesis by (simp add: m)
  next
    case False
    with ne have lt: "W < H" by simp
    then have m: "min W H = W" "max W H = H" by simp_all
    from assms(4,5) have o: "odd W" "odd (H - W)" by (simp_all add: m)
    define h where "h = py_round (of_int (H + W) / 2) - py_round (of_int (H - W) / 2)"
    have h1: "\<bar>h - W\<bar> = 1"
      unfolding h_def using rounded_edge_off_by_one [OF o] .
    with assms(2) have h0: "0 \<le> h" by linarith
    have "isize (the_crop img) = (max 0 W, max 0 h)"
      using isize_the_crop [OF assms(1)] rounded_edge_exact [of W] by (simp add: m h_def)
    with h0 assms(2) have s: "isize (the_crop img) = (W, h)" by simp
    from h1 have "h \<noteq> W" by linarith
    with s h1 lt b c show ?thesis by (simp add: m)
  qed
qed

theorem cropped_region_not_square_witness:
  "isize img_400x301 = (400, 301) \<and> (0 :: int) < 400 \<and> (0 :: int) < 301 \<and>
   odd (min (400 :: int) 301) \<and> odd (max (400 :: int) 301 - min 400 301) \<and>
   wf_image img_400x301 \<and>
   the_box img_400x301 = (99 / 2, 0, 701 / 2, 301) \<and>
   round_box (the_box img_400x301) = (50, 0, 350, 301) \<and>
   isize (the_crop img_400x301) = (300, 301) \<and>
   isize (the_crop img_400x301) \<noteq> (min 400 301, min 400 301) \<and>
   fst (isize (the_crop img_400x301)) \<noteq> snd (isize (the_crop img_400x301)) \<and>
   fst (try_body env_ok (start files_400x301)) = None \<and>
   map (\<lambda>(c, sz, flt). isize c) (resized (events (snd (run env_ok files_400x301)))) =
     [(300, 301), (300, 301), (300, 301)]"
proof -
  have i: "isize img_400x301 = (400, 301)"
    by (simp add: img_400x301_def)
  have wf: "wf_image img_400x301"
    by (simp add: wf_image_def img_400x301_def list_all_iff)
  have b: "the_box img_400x301 = (99 / 2, 0, 701 / 2, 301)"
    by (simp add: the_box_def i crop_box_def Let_def)
  have rb: "round_box (the_box img_400x301) = (50, 0, 350, 301)"
    by (simp add: b round_box_def py_round_def Let_def)
  have s: "isize (the_crop img_400x301) = (300, 301)"
    by (simp add: the_crop_def rb crop_image_def)
  have p1: "(0 :: int) < 400" and p2: "(0 :: int) < 301" by simp_all
  have o1: "odd (min (400 :: int) 301)" and o2: "odd (max (400 :: int) 301 - min 400 301)"
    by simp_all
  have n: "isize (the_crop img_400x301) \<noteq> (min 400 301, min 400 301) \<and>
           fst (isize (the_crop img_400x301)) \<noteq> snd (isize (the_crop img_400x301))"
    using cropped_region_not_square [OF i p1 p2 o1 o2] by blast
  have f: "files_400x301 input_path = Some (ImageFile ''JPEG'' img_400x301)"
    by (simp add: files_400x301_def)
  have ok: "fst (try_body env_ok (start files_400x301)) = None"
    by (rule no_fault_success [of env_ok files_400x301 "''JPEG''" img_400x301])
       (simp_all add: env_ok_def f)
  from success_trace [OF ok] f
  have "events (snd (try_body env_ok (start files_400x301))) = full_trace env_ok img_400x301"
    by (metis disk_file.inject(1) option.inject)
  then have r: "map (\<lambda>(c, sz, flt). isize c) (resized (events (snd (run env_ok files_400x301)))) =
     [(300, 301), (300, 301), (300, 301)]"
    by (simp add: run_resized resized_full_trace sizes_def s)
  from i wf b rb s n o1 o2 ok r show ?thesis by simp
qed

text \<open>
  C3. On a run whose try block ends without an exception, for each size \<open>N\<close> of the
  fixed list \<open>[16, 48, 128]\<close> the file \<open>icon<N>.png\<close> of the output directory holds a
  PNG image of exactly \<open>N\<close> by \<open>N\<close> pixels, the three saves are those and no others,
  and the console shows one line \<open>Generated: <path>\<close> for each file written.
\<close>

theorem icons_written:
  assumes "fst (try_body ev (start files)) = None"
  shows "fst (run ev files) = None \<and>
         sizes = [16, 48, 128] \<and>
         (\<forall>N \<in> set sizes. \<exists>i.
            fs (snd (run ev files)) (output_dir @ ''/icon'' @ str_int N @ ''.png'')
              = Some (ImageFile ''PNG'' i) \<and> isize i = (N, N)) \<and>
         (\<exists>i. fs (snd (run ev files)) ''public/icon16.png'' = Some (ImageFile ''PNG'' i) \<and>
              isize i = (16, 16)) \<and>
         (\<exists>i. fs (snd (run ev files)) ''public/icon48.png'' = Some (ImageFile ''PNG'' i) \<and>
              isize i = (48, 48)) \<and>
         (\<exists>i. fs (snd (run ev files)) ''public/icon128.png'' = Some (ImageFile ''PNG'' i) \<and>
              isize i = (128, 128)) \<and>
         map (\<lambda>(i, p, fmt). (p, fmt, isize i)) (saved (events (snd (run ev files)))) =
           [(''public/icon16.png'', ''PNG'', (16, 16)), (''public/icon48.png'', ''PNG'', (48, 48)),
            (''public/icon128.png'', ''PNG'', (128, 128))] \<and>
         printed (events (snd (run ev files))) =
           [''Generated: public/icon16.png'', ''Generated: public/icon48.png'',
            ''Generated: public/icon128.png'']"
proof -
  from assms obtain fmt img where
    "files input_path = Some (ImageFile fmt img)" and
    tr: "events (snd (try_body ev (start files))) = full_trace ev img" and
    fl: "\<And>s. s \<in> set sizes \<Longrightarrow>
       fs (snd (try_body ev (start files))) (output_path_of s) =
         Some (ImageFile ''PNG'' (resize_image ev (the_crop img) (s, s) LANCZOS))" and
    "\<And>p. p \<notin> output_path_of ` set sizes \<Longrightarrow> fs (snd (try_body ev (start files))) p = files p"
    by (rule success_trace) blast
  have r: "run ev files = (None, snd (try_body ev (start files)))"
    using assms by (simp add: run_unfold)
  have path: "\<And>N. output_dir @ ''/icon'' @ str_int N @ ''.png'' = output_path_of N"
    by (simp add: output_path_of_def path_join_def output_dir_def)
  have files: "\<forall>N \<in> set sizes. \<exists>i.
            fs (snd (run ev files)) (output_dir @ ''/icon'' @ str_int N @ ''.png'')
              = Some (ImageFile ''PNG'' i) \<and> isize i = (N, N)"
    unfolding path using fl by (simp add: r resize_image_def)
  have f16: "\<exists>i. fs (snd (run ev files)) ''public/icon16.png'' = Some (ImageFile ''PNG'' i) \<and>
              isize i = (16, 16)"
    using fl [of 16] by (simp add: r resize_image_def sizes_def output_path_16)
  have f48: "\<exists>i. fs (snd (run ev files)) ''public/icon48.png'' = Some (ImageFile ''PNG'' i) \<and>
              isize i = (48, 48)"
    using fl [of 48] by (simp add: r resize_image_def sizes_def output_path_48)
  have f128: "\<exists>i. fs (snd (run ev files)) ''public/icon128.png'' = Some (ImageFile ''PNG'' i) \<and>
              isize i = (128, 128)"
    using fl [of 128] by (simp add: r resize_image_def sizes_def output_path_128)
  have sv: "map (\<lambda>(i, p, fmt). (p, fmt, isize i)) (saved (events (snd (run ev files)))) =
           [(''public/icon16.png'', ''PNG'', (16, 16)), (''public/icon48.png'', ''PNG'', (48, 48)),
            (''public/icon128.png'', ''PNG'', (128, 128))]"
    by (simp add: r tr full_trace_expand resize_image_def)
  have pr: "printed (events (snd (run ev files))) =
           [''Generated: public/icon16.png'', ''Generated: public/icon48.png'',
            ''Generated: public/icon128.png'']"
    by (simp add: r tr full_trace_expand)
  from r files f16 f48 f128 sv pr show ?thesis by (simp add: sizes_def)
qed

theorem icons_written_witness:
  "fst (try_body env_ok (start files_4x2)) = None \<and>
   fst (run env_ok files_4x2) = None \<and>
   (\<exists>i. fs (snd (run env_ok files_4x2)) ''public/icon16.png'' = Some (ImageFile ''PNG'' i) \<and>
        isize i = (16, 16)) \<and>
   (\<exists>i. fs (snd (run env_ok files_4x2)) ''public/icon48.png'' = Some (ImageFile ''PNG'' i) \<and>
        isize i = (48, 48)) \<and>
   (\<exists>i. fs (snd (run env_ok files_4x2)) ''public/icon128.png'' = Some (ImageFile ''PNG'' i) \<and>
        isize i = (128, 128)) \<and>
   printed (events (snd (run env_ok files_4x2))) =
     [''Generated: public/icon16.png'', ''Generated: public/icon48.png'',
      ''Generated: public/icon128.png'']"
proof -
  have ok: "fst (try_body env_ok (start files_4x2)) = None"
    by (rule no_fault_success [of env_ok files_4x2 "''JPEG''" img_4x2])
       (simp_all add: env_ok_def files_4x2_def)
  from icons_written [OF ok] ok show ?thesis by simp
qed

text \<open>
  C4. When a call of the try block fails with an instance of \<open>Exception\<close>, whatever the
  call (open, crop, resize or save), the handler catches it: the run ends normally, the
  only thing done after the failure is to print the one line \<open>Error: <message>\<close>, every
  console line before it is a \<open>Generated:\<close> line, the file system is the one of the
  moment of failure, and each file whose \<open>Generated:\<close> line was printed is still there
  with its \<open>N\<close> by \<open>N\<close> image. No run, failing or not, lets an \<open>Exception\<close> escape.
\<close>

theorem failure_caught:
  assumes "try_body ev (start files) = (Some (Exception m), w')"
  shows "run ev files = (None, py_print (''Error: '' @ m) w') \<and>
         events (snd (run ev files)) = events w' @ [PrintCall (''Error: '' @ m)] \<and>
         fs (snd (run ev files)) = fs w' \<and>
         printed (events (snd (run ev files))) = printed (events w') @ [''Error: '' @ m] \<and>
         prefix (printed (events w')) (map (\<lambda>N. ''Generated: '' @ output_path_of N) sizes) \<and>
         filter (\<lambda>s. take 7 s = ''Error: '') (printed (events (snd (run ev files))))
           = [''Error: '' @ m] \<and>
         (\<forall>N \<in> set sizes.
            ''Generated: '' @ output_path_of N \<in> set (printed (events (snd (run ev files)))) \<longrightarrow>
            (\<exists>i. fs (snd (run ev files)) (output_path_of N) = Some (ImageFile ''PNG'' i) \<and>
                 isize i = (N, N))) \<and>
         (\<forall>m'. fst (run ev' files') \<noteq> Some (Exception m'))"
proof -
  have r: "run ev files = (None, py_print (''Error: '' @ m) w')"
    using assms by (simp add: run_unfold)
  have e: "events (snd (run ev files)) = events w' @ [PrintCall (''Error: '' @ m)]"
    and f: "fs (snd (run ev files)) = fs w'"
    by (simp_all add: r py_print_def log_def)
  have p: "printed (events (snd (run ev files))) = printed (events w') @ [''Error: '' @ m]"
    by (simp add: e printed_append)
  have g: "prefix (printed (events w')) (map (\<lambda>N. ''Generated: '' @ output_path_of N) sizes)"
    using printed_before_failure [of ev files] assms by simp
  then have "set (printed (events w')) \<subseteq> set (map (\<lambda>N. ''Generated: '' @ output_path_of N) sizes)"
    by (rule set_mono_prefix)
  then have "\<forall>s \<in> set (printed (events w')). take 7 s \<noteq> ''Error: ''"
    by auto
  then have "filter (\<lambda>s. take 7 s = ''Error: '') (printed (events w')) = []"
    by (simp add: filter_empty_conv)
  then have one: "filter (\<lambda>s. take 7 s = ''Error: '') (printed (events (snd (run ev files))))
           = [''Error: '' @ m]"
    by (simp add: p)
  have kept: "\<forall>N \<in> set sizes.
            ''Generated: '' @ output_path_of N \<in> set (printed (events (snd (run ev files)))) \<longrightarrow>
            (\<exists>i. fs (snd (run ev files)) (output_path_of N) = Some (ImageFile ''PNG'' i) \<and>
                 isize i = (N, N))"
  proof (intro ballI impI)
    fix N
    assume N: "N \<in> set sizes"
      and "''Generated: '' @ output_path_of N \<in> set (printed (events (snd (run ev files))))"
    then have "''Generated: '' @ output_path_of N \<in> set (printed (events w'))"
      by (simp add: p)
    then have "''Generated: '' @ output_path_of N
        \<in> set (printed (events (snd (try_body ev (start files)))))"
      using assms by simp
    from written_files_stay [OF N this] show
      "\<exists>i. fs (snd (run ev files)) (output_path_of N) = Some (ImageFile ''PNG'' i) \<and>
                 isize i = (N, N)"
      using assms by (simp add: f)
  qed
  from r e f p g one kept show ?thesis
    by (simp add: run_never_raises_exception)
qed

theorem failure_caught_witness:
  "try_body env_disk_full (start files_4x2) =
     (Some (Exception ''[Errno 28] No space left on device''),
      snd (try_body env_disk_full (start files_4x2))) \<and>
   run env_disk_full files_4x2 =
     (None, py_print ''Error: [Errno 28] No space left on device''
              (snd (try_body env_disk_full (start files_4x2)))) \<and>
   printed (events (snd (run env_disk_full files_4x2))) =
     [''Generated: public/icon16.png'', ''Error: [Errno 28] No space left on device''] \<and>
   (\<exists>i. fs (snd (run env_disk_full files_4x2)) ''public/icon16.png'' = Some (ImageFile ''PNG'' i) \<and>
        isize i = (16, 16)) \<and>
   fs (snd (run env_disk_full files_4x2)) ''public/icon48.png'' = Some (Junk [137, 80, 78, 71]) \<and>
   fs (snd (run env_disk_full files_4x2)) ''public/icon128.png'' = None"
proof -
  let ?w = "snd (try_body env_disk_full (start files_4x2))"
  have "fst (try_body env_disk_full (start files_4x2))
        = Some (Exception ''[Errno 28] No space left on device'')"
    by (simp add: script_defs env_disk_full_def files_4x2_def)
  then have tb: "try_body env_disk_full (start files_4x2) =
     (Some (Exception ''[Errno 28] No space left on device''), ?w)"
    by (simp add: prod_eq_iff)
  have pr: "printed (events ?w) = [''Generated: public/icon16.png'']"
    by (simp add: script_defs env_disk_full_def files_4x2_def)
  have f48: "fs ?w ''public/icon48.png'' = Some (Junk [137, 80, 78, 71])"
    by (simp add: script_defs env_disk_full_def files_4x2_def)
  have f128: "fs ?w ''public/icon128.png'' = None"
    by (simp add: script_defs env_disk_full_def files_4x2_def input_path_def)
  note th = failure_caught [where ev' = env_ok and files' = files_4x2, OF tb]
  from th have r: "run env_disk_full files_4x2 =
     (None, py_print (''Error: '' @ ''[Errno 28] No space left on device'') ?w)"
    by (rule conjunct1)
  from th have "printed (events (snd (run env_disk_full files_4x2))) =
     printed (events ?w) @ [''Error: '' @ ''[Errno 28] No space left on device'']"
    by blast
  then have p: "printed (events (snd (run env_disk_full files_4x2))) =
     [''Generated: public/icon16.png'', ''Error: [Errno 28] No space left on device'']"
    by (simp add: pr)
  from th have f: "fs (snd (run env_disk_full files_4x2)) = fs ?w" by blast
  from th have "\<forall>N \<in> set sizes.
      ''Generated: '' @ output_path_of N \<in> set (printed (events (snd (run env_disk_full files_4x2)))) \<longrightarrow>
      (\<exists>i. fs (snd (run env_disk_full files_4x2)) (output_path_of N) = Some (ImageFile ''PNG'' i) \<and>
           isize i = (N, N))" by blast
  then have "''Generated: '' @ output_path_of 16 \<in> set (printed (events (snd (run env_disk_full files_4x2)))) \<longrightarrow>
      (\<exists>i. fs (snd (run env_disk_full files_4x2)) (output_path_of 16) = Some (ImageFile ''PNG'' i) \<and>
           isize i = (16, 16))"
    by (simp add: sizes_def)
  then have f16: "\<exists>i. fs (snd (run env_disk_full files_4x2)) ''public/icon16.png'' = Some (ImageFile ''PNG'' i) \<and>
        isize i = (16, 16)"
    by (simp add: p output_path_16)
  from tb r p f16 f48 f128 f show ?thesis by simp
qed

text \<open>
  C5. When the input file is missing, the open call fails, no file is written (the file
  system after the run is the one before it, so files that existed are unchanged) and no
  save is attempted. The failure of the open call is an instance of \<open>Exception\<close> unless
  the call was interrupted, and then the run ends normally having printed exactly the
  line \<open>Error: <message>\<close>; with no other fault the message is that of
  \<open>FileNotFoundError\<close>.
\<close>

theorem missing_input_writes_nothing:
  assumes "files input_path = None"
  shows "(\<exists>e. fst (pil_open ev input_path (start files)) = Inl e) \<and>
         fs (snd (run ev files)) = files \<and>
         saved (events (snd (run ev files))) = [] \<and>
         (\<forall>m. fst (pil_open ev input_path (start files)) = Inl (Exception m) \<longrightarrow>
            run ev files =
              (None, \<lparr>fs = files,
                      events = [OpenCall input_path, PrintCall (''Error: '' @ m)]\<rparr>) \<and>
            printed (events (snd (run ev files))) = [''Error: '' @ m]) \<and>
         (fault ev (OpenCall input_path) (start files) = None \<longrightarrow>
            fst (pil_open ev input_path (start files)) =
              Inl (Exception (''[Errno 2] No such file or directory: '' @ quoted input_path)))"
proof (cases rule: try_body_cases [of ev files])
  case (open_fails e)
  have a: "\<exists>e. fst (pil_open ev input_path (start files)) = Inl e"
    using open_fails(1) by blast
  have b: "fs (snd (run ev files)) = files"
    by (simp add: run_fs open_fails(2))
  have c: "saved (events (snd (run ev files))) = []"
    by (simp add: run_saved open_fails(2))
  have d: "run ev files =
              (None, \<lparr>fs = files, events = [OpenCall input_path, PrintCall (''Error: '' @ m)]\<rparr>) \<and>
            printed (events (snd (run ev files))) = [''Error: '' @ m]"
    if "fst (pil_open ev input_path (start files)) = Inl (Exception m)" for m
  proof -
    from that open_fails(1) have "e = Exception m" by simp
    with open_fails(2) show ?thesis
      by (simp add: run_unfold py_print_def log_def)
  qed
  have e: "fault ev (OpenCall input_path) (start files) = None \<longrightarrow>
            fst (pil_open ev input_path (start files)) =
              Inl (Exception (''[Errno 2] No such file or directory: '' @ quoted input_path))"
    using assms by (simp add: pil_open_def start_def)
  from a b c d e show ?thesis by blast
next
  case (crop_fails fmt img e)
  with assms show ?thesis by simp
next
  case (loops fmt img)
  with assms show ?thesis by simp
qed

theorem missing_input_writes_nothing_witness:
  "files_old_icon input_path = None \<and>
   fault env_ok (OpenCall input_path) (start files_old_icon) = None \<and>
   fst (pil_open env_ok input_path (start files_old_icon)) =
     Inl (Exception (''[Errno 2] No such file or directory: '' @ quoted input_path)) \<and>
   fs (snd (run env_ok files_old_icon)) = files_old_icon \<and>
   fs (snd (run env_ok files_old_icon)) ''public/icon16.png'' = Some (ImageFile ''PNG'' img_3x3) \<and>
   saved (events (snd (run env_ok files_old_icon))) = [] \<and>
   printed (events (snd (run env_ok files_old_icon))) =
     [''Error: '' @ ''[Errno 2] No such file or directory: '' @ quoted input_path]"
proof -
  have h: "files_old_icon input_path = None"
    by (simp add: files_old_icon_def input_path_def)
  have f: "fault env_ok (OpenCall input_path) (start files_old_icon) = None"
    by (simp add: env_ok_def)
  note th = missing_input_writes_nothing [where files = files_old_icon and ev = env_ok, OF h]
  from th f have o: "fst (pil_open env_ok input_path (start files_old_icon)) =
     Inl (Exception (''[Errno 2] No such file or directory: '' @ quoted input_path))"
    by blast
  from th have s: "fs (snd (run env_ok files_old_icon)) = files_old_icon"
    and sv: "saved (events (snd (run env_ok files_old_icon))) = []" by blast+
  from th o have p: "printed (events (snd (run env_ok files_old_icon))) =
     [''Error: '' @ ''[Errno 2] No such file or directory: '' @ quoted input_path]"
    by blast
  have old: "files_old_icon ''public/icon16.png'' = Some (ImageFile ''PNG'' img_3x3)"
    by (simp add: files_old_icon_def)
  from h f o s sv p old show ?thesis by simp
qed

text \<open>
  C6. For a square image of size \<open>S\<close> by \<open>S\<close> the crop box is \<open>(0, 0, S, S)\<close>, the
  whole image, and the crop call, when it does not fail, returns an image equal to the
  original.
\<close>

theorem square_crop_noop:
  "crop_box S S = (0, 0, of_int S, of_int S) \<and>
   (wf_image img \<and> isize img = (S, S) \<longrightarrow>
      the_box img = (0, 0, of_int S, of_int S) \<and>
      the_crop img = img \<and>
      (fault ev (CropCall img (the_box img)) w = None \<longrightarrow>
         fst (pil_crop ev img (the_box img) w) = Inr img))"
proof -
  have box: "crop_box S S = (0, 0, of_int S, of_int S)"
    by (simp add: crop_box_def Let_def)
  have "the_crop img = img" and "the_box img = (0, 0, of_int S, of_int S)"
    if "wf_image img" and "isize img = (S, S)"
  proof -
    from that(2) show b: "the_box img = (0, 0, of_int S, of_int S)"
      by (simp add: the_box_def box)
    have "round_box (the_box img) = (0, 0, fst (isize img), snd (isize img))"
      using that(2) by (simp add: b round_box_def py_round_of_int py_round_0)
    then show "the_crop img = img"
      using crop_full_image [OF that(1)] by (simp add: the_crop_def)
  qed
  then show ?thesis using box by (auto simp add: pil_crop_def the_crop_def)
qed

theorem square_crop_noop_witness:
  "wf_image img_3x3 \<and> isize img_3x3 = (3, 3) \<and>
   fault env_ok (CropCall img_3x3 (the_box img_3x3)) (start files_3x3) = None \<and>
   the_box img_3x3 = (0, 0, 3, 3) \<and> the_crop img_3x3 = img_3x3 \<and>
   fst (pil_crop env_ok img_3x3 (the_box img_3x3) (start files_3x3)) = Inr img_3x3"
proof -
  have h: "wf_image img_3x3 \<and> isize img_3x3 = (3, 3)"
    by (simp add: wf_image_def img_3x3_def)
  have f: "fault env_ok (CropCall img_3x3 (the_box img_3x3)) (start files_3x3) = None"
    by (simp add: env_ok_def)
  have "the_box img_3x3 = (0, 0, of_int 3, of_int 3) \<and> the_crop img_3x3 = img_3x3 \<and>
        fst (pil_crop env_ok img_3x3 (the_box img_3x3) (start files_3x3)) = Inr img_3x3"
    using square_crop_noop [of 3 img_3x3 env_ok "start files_3x3"] h f by blast
  with h f show ?thesis by auto
qed

text \<open>
  C7. Two runs on the same input image, whatever the library does in each (which calls
  fail, what the filter computes, what other files exist), compute the same crop
  geometry: every crop call of either run is on that image with the same box. And the
  images they save under the same path have the same pixel dimensions and format.
\<close>

theorem same_image_same_geometry:
  assumes "files1 input_path = Some (ImageFile fmt1 img)"
    and "files2 input_path = Some (ImageFile fmt2 img)"
  shows "(\<forall>i1 b1 i2 b2.
            (i1, b1) \<in> set (cropped (events (snd (run ev1 files1)))) \<and>
            (i2, b2) \<in> set (cropped (events (snd (run ev2 files2)))) \<longrightarrow>
            i1 = i2 \<and> b1 = b2 \<and> b1 = crop_box (fst (isize img)) (snd (isize img))) \<and>
         (\<forall>i1 g1 i2 g2 p.
            (i1, p, g1) \<in> set (saved (events (snd (run ev1 files1)))) \<and>
            (i2, p, g2) \<in> set (saved (events (snd (run ev2 files2)))) \<longrightarrow>
            isize i1 = isize i2 \<and> g1 = g2)"
proof -
  have crop: "i = img \<and> b = the_box img"
    if "(i, b) \<in> set (cropped (events (snd (run ev files))))"
      and "files input_path = Some (ImageFile fmt img)" for i b ev files fmt
    using set_mono_prefix [OF run_projections(1) [where files = files and ev = ev, OF that(2)]]
      that(1) by auto
  have save: "\<exists>sz \<in> set sizes. isize i = (sz, sz) \<and> p = output_path_of sz \<and> g = ''PNG''"
    if "(i, p, g) \<in> set (saved (events (snd (run ev files))))"
      and "files input_path = Some (ImageFile fmt img)" for i p g ev files fmt
    using set_mono_prefix [OF run_projections(3) [where files = files and ev = ev, OF that(2)]]
      that(1)
    by (auto simp add: resize_image_def)
  have a: "\<forall>i1 b1 i2 b2.
            (i1, b1) \<in> set (cropped (events (snd (run ev1 files1)))) \<and>
            (i2, b2) \<in> set (cropped (events (snd (run ev2 files2)))) \<longrightarrow>
            i1 = i2 \<and> b1 = b2 \<and> b1 = crop_box (fst (isize img)) (snd (isize img))"
  proof (intro allI impI)
    fix i1 b1 i2 b2
    assume h: "(i1, b1) \<in> set (cropped (events (snd (run ev1 files1)))) \<and>
               (i2, b2) \<in> set (cropped (events (snd (run ev2 files2))))"
    from h have "i1 = img \<and> b1 = the_box img"
      using crop [where files = files1 and ev = ev1, OF _ assms(1)] by blast
    moreover from h have "i2 = img \<and> b2 = the_box img"
      using crop [where files = files2 and ev = ev2, OF _ assms(2)] by blast
    ultimately show "i1 = i2 \<and> b1 = b2 \<and> b1 = crop_box (fst (isize img)) (snd (isize img))"
      by (simp add: the_box_def)
  qed
  have b: "\<forall>i1 g1 i2 g2 p.
            (i1, p, g1) \<in> set (saved (events (snd (run ev1 files1)))) \<and>
            (i2, p, g2) \<in> set (saved (events (snd (run ev2 files2)))) \<longrightarrow>
            isize i1 = isize i2 \<and> g1 = g2"
  proof (intro allI impI)
    fix i1 g1 i2 g2 p
    assume "(i1, p, g1) \<in> set (saved (events (snd (run ev1 files1)))) \<and>
            (i2, p, g2) \<in> set (saved (events (snd (run ev2 files2))))"
    then obtain s1 s2 where "s1 \<in> set sizes" "isize i1 = (s1, s1)" "p = output_path_of s1" "g1 = ''PNG''"
      and "s2 \<in> set sizes" "isize i2 = (s2, s2)" "p = output_path_of s2" "g2 = ''PNG''"
      using save [where files = files1, OF _ assms(1)] save [where files = files2, OF _ assms(2)]
      by blast
    moreover from this have "s1 = s2" by (simp add: output_path_inj)
    ultimately show "isize i1 = isize i2 \<and> g1 = g2" by simp
  qed
  from a b show ?thesis by blast
qed

theorem same_image_same_geometry_witness:
  "files_4x2 input_path = Some (ImageFile ''JPEG'' img_4x2) \<and>
   cropped (events (snd (run env_ok files_4x2))) = [(img_4x2, (1, 0, 3, 2))] \<and>
   cropped (events (snd (run env_disk_full files_4x2))) = [(img_4x2, (1, 0, 3, 2))] \<and>
   (resize_image env_ok (the_crop img_4x2) (16, 16) LANCZOS, ''public/icon16.png'', ''PNG'')
     \<in> set (saved (events (snd (run env_ok files_4x2)))) \<and>
   (resize_image env_disk_full (the_crop img_4x2) (16, 16) LANCZOS, ''public/icon16.png'', ''PNG'')
     \<in> set (saved (events (snd (run env_disk_full files_4x2)))) \<and>
   isize (resize_image env_ok (the_crop img_4x2) (16, 16) LANCZOS) =
     isize (resize_image env_disk_full (the_crop img_4x2) (16, 16) LANCZOS) \<and>
   resize_image env_ok (the_crop img_4x2) (16, 16) LANCZOS \<noteq>
     resize_image env_disk_full (the_crop img_4x2) (16, 16) LANCZOS"
proof -
  have h: "files_4x2 input_path = Some (ImageFile ''JPEG'' img_4x2)"
    by (simp add: files_4x2_def)
  have b: "the_box img_4x2 = (1, 0, 3, 2)"
    by (simp add: the_box_def crop_box_def img_4x2_def Let_def)
  have c1: "cropped (events (snd (run env_ok files_4x2))) = [(img_4x2, the_box img_4x2)]"
    by (simp add: run_cropped script_defs env_ok_def files_4x2_def the_box_def)
  have c2: "cropped (events (snd (run env_disk_full files_4x2))) = [(img_4x2, the_box img_4x2)]"
    by (simp add: run_cropped script_defs env_disk_full_def files_4x2_def the_box_def)
  have s1: "(resize_image env_ok (the_crop img_4x2) (16, 16) LANCZOS, ''public/icon16.png'', ''PNG'')
     \<in> set (saved (events (snd (run env_ok files_4x2))))"
    by (simp add: run_saved script_defs env_ok_def files_4x2_def the_box_def the_crop_def)
  have s2: "(resize_image env_disk_full (the_crop img_4x2) (16, 16) LANCZOS, ''public/icon16.png'', ''PNG'')
     \<in> set (saved (events (snd (run env_disk_full files_4x2))))"
    by (simp add: run_saved script_defs env_disk_full_def files_4x2_def the_box_def the_crop_def)
  note th = same_image_same_geometry [where ?files1.0 = files_4x2 and ?files2.0 = files_4x2
      and ?ev1.0 = env_ok and ?ev2.0 = env_disk_full, OF h h]
  from th s1 s2 have d: "isize (resize_image env_ok (the_crop img_4x2) (16, 16) LANCZOS) =
     isize (resize_image env_disk_full (the_crop img_4x2) (16, 16) LANCZOS)"
    by blast
  have rb: "round_box (the_box img_4x2) = (1, 0, 3, 2)"
    by (simp add: b round_box_def py_round_def Let_def)
  have px: "getpixel (the_crop img_4x2) 0 0 = 2"
    unfolding the_crop_def rb by (simp add: crop_image_def getpixel_def img_4x2_def)
  have n: "resize_image env_ok (the_crop img_4x2) (16, 16) LANCZOS \<noteq>
     resize_image env_disk_full (the_crop img_4x2) (16, 16) LANCZOS"
    by (simp add: resize_image_def env_ok_def env_disk_full_def blank_rows_def first_rows_def px)
  from h b c1 c2 s1 s2 d n show ?thesis by simp
qed

text \<open>
  C8. For a width and a height of at least 1 the crop box is well formed and inside the
  image: \<open>0 \<le> left \<le> right \<le> width\<close>, \<open>0 \<le> top \<le> bottom \<le> height\<close>, and
  \<open>right - left = bottom - top = min width height\<close> exactly. Every coordinate is an
  integer or a half-integer, and a coordinate is fractional exactly when the excess of the
  larger dimension over the smaller is odd.
\<close>

theorem crop_box_well_formed:
  assumes "1 \<le> W" and "1 \<le> H" and "crop_box W H = (l, t, r, b)"
  shows "0 \<le> l \<and> l \<le> r \<and> r \<le> of_int W \<and> 0 \<le> t \<and> t \<le> b \<and> b \<le> of_int H \<and>
         r - l = of_int (min W H) \<and> b - t = of_int (min W H) \<and>
         2 * l \<in> \<int> \<and> 2 * t \<in> \<int> \<and> 2 * r \<in> \<int> \<and> 2 * b \<in> \<int> \<and>
         ((l \<notin> \<int> \<or> t \<notin> \<int> \<or> r \<notin> \<int> \<or> b \<notin> \<int>) \<longleftrightarrow> odd (max W H - min W H))"
proof -
  from assms(3) have l: "l = of_int (W - min W H) / 2" and t: "t = of_int (H - min W H) / 2"
    and r: "r = of_int (W + min W H) / 2" and b: "b = of_int (H + min W H) / 2"
    by (simp_all add: crop_box_def Let_def)
  have bounds: "0 \<le> l \<and> l \<le> r \<and> r \<le> of_int W \<and> 0 \<le> t \<and> t \<le> b \<and> b \<le> of_int H"
    using assms(1,2) unfolding l t r b by (simp add: min_def)
  have edges: "r - l = of_int (min W H) \<and> b - t = of_int (min W H)"
    unfolding l t r b by (simp add: min_def field_simps)
  have halves: "2 * l \<in> \<int> \<and> 2 * t \<in> \<int> \<and> 2 * r \<in> \<int> \<and> 2 * b \<in> \<int>"
    unfolding l t r b by (intro conjI twice_half)
  have frac: "(l \<notin> \<int> \<or> t \<notin> \<int> \<or> r \<notin> \<int> \<or> b \<notin> \<int>) \<longleftrightarrow> odd (max W H - min W H)"
    unfolding l t r b half_int_iff by (cases "W \<le> H") (simp_all add: min_def max_def)
  from bounds edges halves frac show ?thesis by simp
qed

theorem crop_box_well_formed_witness:
  "(1::int) \<le> 5 \<and> (1::int) \<le> 2 \<and> crop_box 5 2 = (3 / 2, 0, 7 / 2, 2) \<and>
   (0::rat) \<le> 3 / 2 \<and> (3 / 2 :: rat) \<le> 7 / 2 \<and> (7 / 2 :: rat) \<le> of_int 5 \<and>
   (7 / 2 :: rat) - 3 / 2 = of_int (min 5 2) \<and> (3 / 2 :: rat) \<notin> \<int> \<and> odd (max (5::int) 2 - min 5 2)"
proof -
  have c: "crop_box 5 2 = (3 / 2, 0, 7 / 2, 2)"
    by (simp add: crop_box_def Let_def)
  have o: "odd (max (5::int) 2 - min 5 2)" by simp
  from crop_box_well_formed [of 5 2 "3 / 2" 0 "7 / 2" 2] c o
  show ?thesis by simp
qed

text \<open>
  C9. In every run the sizes are taken in the order 16, 48, 128: the sizes of the resize
  calls, the paths of the saves and the \<open>Generated:\<close> lines are each an initial part of
  the three in that order, and the list of sizes is strictly increasing. Every resize call
  is made on the one cropped image (the crop of the image opened), and every image saved
  is a resize of that cropped image, never of a resized copy. When the try block ends
  without an exception the trace is exactly: open, crop, then resize, save and print for
  16, for 48 and for 128.
\<close>

theorem sizes_in_order:
  "sorted_wrt (<) sizes \<and>
   prefix (map (\<lambda>(c, sz, flt). sz) (resized (events (snd (run ev files)))))
     [(16, 16), (48, 48), (128, 128)] \<and>
   prefix (map (\<lambda>(i, p, fmt). p) (saved (events (snd (run ev files)))))
     [''public/icon16.png'', ''public/icon48.png'', ''public/icon128.png''] \<and>
   prefix (printed (events (snd (try_body ev (start files)))))
     [''Generated: public/icon16.png'', ''Generated: public/icon48.png'',
      ''Generated: public/icon128.png''] \<and>
   (\<forall>c sz flt. (c, sz, flt) \<in> set (resized (events (snd (run ev files)))) \<longrightarrow>
      (\<exists>fmt img. files input_path = Some (ImageFile fmt img) \<and> c = the_crop img)) \<and>
   (\<forall>i p g. (i, p, g) \<in> set (saved (events (snd (run ev files)))) \<longrightarrow>
      (\<exists>fmt img N. files input_path = Some (ImageFile fmt img) \<and> N \<in> set sizes \<and>
         i = resize_image ev (the_crop img) (N, N) LANCZOS)) \<and>
   (fst (try_body ev (start files)) = None \<longrightarrow>
      (\<exists>fmt img. files input_path = Some (ImageFile fmt img) \<and>
         events (snd (run ev files)) =
           [OpenCall input_path, CropCall img (the_box img),
            ResizeCall (the_crop img) (16, 16) LANCZOS,
            SaveCall (resize_image ev (the_crop img) (16, 16) LANCZOS) ''public/icon16.png'' ''PNG'',
            PrintCall ''Generated: public/icon16.png'',
            ResizeCall (the_crop img) (48, 48) LANCZOS,
            SaveCall (resize_image ev (the_crop img) (48, 48) LANCZOS) ''public/icon48.png'' ''PNG'',
            PrintCall ''Generated: public/icon48.png'',
            ResizeCall (the_crop img) (128, 128) LANCZOS,
            SaveCall (resize_image ev (the_crop img) (128, 128) LANCZOS) ''public/icon128.png'' ''PNG'',
            PrintCall ''Generated: public/icon128.png'']))"
proof -
  have pr: "prefix (printed (events (snd (try_body ev (start files)))))
     [''Generated: public/icon16.png'', ''Generated: public/icon48.png'',
      ''Generated: public/icon128.png'']"
    using printed_before_failure [of ev files]
    by (simp add: sizes_def output_path_16 output_path_48 output_path_128)
  have ok: "fst (try_body ev (start files)) = None \<longrightarrow>
      (\<exists>fmt img. files input_path = Some (ImageFile fmt img) \<and>
         events (snd (run ev files)) = full_trace ev img)"
  proof
    assume s: "fst (try_body ev (start files)) = None"
    then have "events (snd (run ev files)) = events (snd (try_body ev (start files)))"
      by (simp add: run_events)
    with success_trace [OF s] show "\<exists>fmt img. files input_path = Some (ImageFile fmt img) \<and>
         events (snd (run ev files)) = full_trace ev img"
      by metis
  qed
  have rest: "prefix (map (\<lambda>(c, sz, flt). sz) (resized (events (snd (run ev files)))))
       [(16, 16), (48, 48), (128, 128)] \<and>
     prefix (map (\<lambda>(i, p, fmt). p) (saved (events (snd (run ev files)))))
       [''public/icon16.png'', ''public/icon48.png'', ''public/icon128.png''] \<and>
     (\<forall>c sz flt. (c, sz, flt) \<in> set (resized (events (snd (run ev files)))) \<longrightarrow>
        (\<exists>fmt img. files input_path = Some (ImageFile fmt img) \<and> c = the_crop img)) \<and>
     (\<forall>i p g. (i, p, g) \<in> set (saved (events (snd (run ev files)))) \<longrightarrow>
        (\<exists>fmt img N. files input_path = Some (ImageFile fmt img) \<and> N \<in> set sizes \<and>
           i = resize_image ev (the_crop img) (N, N) LANCZOS))"
  proof (cases "\<exists>fmt img. files input_path = Some (ImageFile fmt img)")
    case False
    then have "\<And>fmt img. files input_path \<noteq> Some (ImageFile fmt img)" by blast
    from run_projections_no_image(2,3) [where files = files and ev = ev, OF this]
    show ?thesis by simp
  next
    case True
    then obtain fmt img where f: "files input_path = Some (ImageFile fmt img)" by blast
    note r = run_projections(2) [where files = files and ev = ev, OF f]
    note s = run_projections(3) [where files = files and ev = ev, OF f]
    have "prefix (map (\<lambda>(c, sz, flt). sz) (resized (events (snd (run ev files)))))
            (map (\<lambda>(c, sz, flt). sz) (map (\<lambda>sz. (the_crop img, (sz, sz), LANCZOS)) sizes))"
      using r by (rule map_mono_prefix)
    then have a: "prefix (map (\<lambda>(c, sz, flt). sz) (resized (events (snd (run ev files)))))
       [(16, 16), (48, 48), (128, 128)]"
      by (simp add: sizes_def)
    have "prefix (map (\<lambda>(i, p, fmt). p) (saved (events (snd (run ev files)))))
            (map (\<lambda>(i, p, fmt). p)
               (map (\<lambda>sz. (resize_image ev (the_crop img) (sz, sz) LANCZOS, output_path_of sz, ''PNG''))
                  sizes))"
      using s by (rule map_mono_prefix)
    then have b: "prefix (map (\<lambda>(i, p, fmt). p) (saved (events (snd (run ev files)))))
       [''public/icon16.png'', ''public/icon48.png'', ''public/icon128.png'']"
      by (simp add: sizes_def output_path_16 output_path_48 output_path_128)
    have c: "\<forall>c sz flt. (c, sz, flt) \<in> set (resized (events (snd (run ev files)))) \<longrightarrow>
        (\<exists>fmt img. files input_path = Some (ImageFile fmt img) \<and> c = the_crop img)"
      using set_mono_prefix [OF r] f by auto
    have d: "\<forall>i p g. (i, p, g) \<in> set (saved (events (snd (run ev files)))) \<longrightarrow>
        (\<exists>fmt img N. files input_path = Some (ImageFile fmt img) \<and> N \<in> set sizes \<and>
           i = resize_image ev (the_crop img) (N, N) LANCZOS)"
      using set_mono_prefix [OF s] f by auto
    from a b c d show ?thesis by blast
  qed
  from pr ok rest sizes_increasing show ?thesis
    unfolding full_trace_expand by blast
qed

theorem sizes_in_order_witness:
  "fst (try_body env_ok (start files_4x2)) = None \<and>
   files_4x2 input_path = Some (ImageFile ''JPEG'' img_4x2) \<and>
   the_box img_4x2 = (1, 0, 3, 2) \<and>
   the_crop img_4x2 = \<lparr>isize = (2, 2), rows = [[2, 3], [6, 7]]\<rparr> \<and>
   events (snd (run env_ok files_4x2)) =
     [OpenCall input_path, CropCall img_4x2 (the_box img_4x2),
      ResizeCall (the_crop img_4x2) (16, 16) LANCZOS,
      SaveCall (resize_image env_ok (the_crop img_4x2) (16, 16) LANCZOS) ''public/icon16.png'' ''PNG'',
      PrintCall ''Generated: public/icon16.png'',
      ResizeCall (the_crop img_4x2) (48, 48) LANCZOS,
      SaveCall (resize_image env_ok (the_crop img_4x2) (48, 48) LANCZOS) ''public/icon48.png'' ''PNG'',
      PrintCall ''Generated: public/icon48.png'',
      ResizeCall (the_crop img_4x2) (128, 128) LANCZOS,
      SaveCall (resize_image env_ok (the_crop img_4x2) (128, 128) LANCZOS) ''public/icon128.png'' ''PNG'',
      PrintCall ''Generated: public/icon128.png'']"
proof -
  have ok: "fst (try_body env_ok (start files_4x2)) = None"
    by (rule no_fault_success [of env_ok files_4x2 "''JPEG''" img_4x2])
       (simp_all add: env_ok_def files_4x2_def)
  have h: "files_4x2 input_path = Some (ImageFile ''JPEG'' img_4x2)"
    by (simp add: files_4x2_def)
  have b: "the_box img_4x2 = (1, 0, 3, 2)"
    by (simp add: the_box_def crop_box_def img_4x2_def Let_def)
  have rb: "round_box (the_box img_4x2) = (1, 0, 3, 2)"
    by (simp add: b round_box_def py_round_def Let_def)
  have "crop_image img_4x2 (1, 0, 3, 2) = \<lparr>isize = (2, 2), rows = [[2, 3], [6, 7]]\<rparr>"
    by code_simp
  then have c: "the_crop img_4x2 = \<lparr>isize = (2, 2), rows = [[2, 3], [6, 7]]\<rparr>"
    by (simp add: the_crop_def rb)
  from sizes_in_order [of env_ok files_4x2] ok
  obtain fmt img where "files_4x2 input_path = Some (ImageFile fmt img)"
    and "events (snd (run env_ok files_4x2)) =
     [OpenCall input_path, CropCall img (the_box img),
      ResizeCall (the_crop img) (16, 16) LANCZOS,
      SaveCall (resize_image env_ok (the_crop img) (16, 16) LANCZOS) ''public/icon16.png'' ''PNG'',
      PrintCall ''Generated: public/icon16.png'',
      ResizeCall (the_crop img) (48, 48) LANCZOS,
      SaveCall (resize_image env_ok (the_crop img) (48, 48) LANCZOS) ''public/icon48.png'' ''PNG'',
      PrintCall ''Generated: public/icon48.png'',
      ResizeCall (the_crop img) (128, 128) LANCZOS,
      SaveCall (resize_image env_ok (the_crop img) (128, 128) LANCZOS) ''public/icon128.png'' ''PNG'',
      PrintCall ''Generated: public/icon128.png'']"
    by blast
  with h have "events (snd (run env_ok files_4x2)) =
     [OpenCall input_path, CropCall img_4x2 (the_box img_4x2),
      ResizeCall (the_crop img_4x2) (16, 16) LANCZOS,
      SaveCall (resize_image env_ok (the_crop img_4x2) (16, 16) LANCZOS) ''public/icon16.png'' ''PNG'',
      PrintCall ''Generated: public/icon16.png'',
      ResizeCall (the_crop img_4x2) (48, 48) LANCZOS,
      SaveCall (resize_image env_ok (the_crop img_4x2) (48, 48) LANCZOS) ''public/icon48.png'' ''PNG'',
      PrintCall ''Generated: public/icon48.png'',
      ResizeCall (the_crop img_4x2) (128, 128) LANCZOS,
      SaveCall (resize_image env_ok (the_crop img_4x2) (128, 128) LANCZOS) ''public/icon128.png'' ''PNG'',
      PrintCall ''Generated: public/icon128.png'']"
    by simp
  with ok h b c show ?thesis by (simp only: simp_thms)
qed

text \<open>
  C10. Every resize call of every run is made with the Lanczos filter, and a run whose
  try block ends without an exception makes exactly three resize calls, to 16 by 16, 48 by
  48 and 128 by 128, each with that filter.
\<close>

theorem resize_uses_lanczos:
  "(\<forall>c sz flt. (c, sz, flt) \<in> set (resized (events (snd (run ev files)))) \<longrightarrow> flt = LANCZOS) \<and>
   (fst (try_body ev (start files)) = None \<longrightarrow>
      map (\<lambda>(c, sz, flt). (sz, flt)) (resized (events (snd (run ev files)))) =
        [((16, 16), LANCZOS), ((48, 48), LANCZOS), ((128, 128), LANCZOS)])"
proof -
  have a: "\<forall>c sz flt. (c, sz, flt) \<in> set (resized (events (snd (run ev files)))) \<longrightarrow> flt = LANCZOS"
  proof (cases "\<exists>fmt img. files input_path = Some (ImageFile fmt img)")
    case False
    then have "\<And>fmt img. files input_path \<noteq> Some (ImageFile fmt img)" by blast
    from run_projections_no_image(2) [where files = files and ev = ev, OF this]
    show ?thesis by simp
  next
    case True
    then obtain fmt img where f: "files input_path = Some (ImageFile fmt img)" by blast
    from set_mono_prefix [OF run_projections(2) [where files = files and ev = ev, OF f]]
    show ?thesis by auto
  qed
  have b: "fst (try_body ev (start files)) = None \<longrightarrow>
      map (\<lambda>(c, sz, flt). (sz, flt)) (resized (events (snd (run ev files)))) =
        [((16, 16), LANCZOS), ((48, 48), LANCZOS), ((128, 128), LANCZOS)]"
  proof
    assume s: "fst (try_body ev (start files)) = None"
    from success_trace [OF s] obtain img where
      "events (snd (try_body ev (start files))) = full_trace ev img" by metis
    then show "map (\<lambda>(c, sz, flt). (sz, flt)) (resized (events (snd (run ev files)))) =
        [((16, 16), LANCZOS), ((48, 48), LANCZOS), ((128, 128), LANCZOS)]"
      by (simp add: run_resized resized_full_trace sizes_def)
  qed
  from a b show ?thesis by blast
qed

theorem resize_uses_lanczos_witness:
  "fst (try_body env_ok (start files_4x2)) = None \<and>
   map (\<lambda>(c, sz, flt). (sz, flt)) (resized (events (snd (run env_ok files_4x2)))) =
     [((16, 16), LANCZOS), ((48, 48), LANCZOS), ((128, 128), LANCZOS)] \<and>
   (the_crop img_4x2, (16, 16), LANCZOS) \<in> set (resized (events (snd (run env_disk_full files_4x2))))"
proof -
  have ok: "fst (try_body env_ok (start files_4x2)) = None"
    by (rule no_fault_success [of env_ok files_4x2 "''JPEG''" img_4x2])
       (simp_all add: env_ok_def files_4x2_def)
  from resize_uses_lanczos [of env_ok files_4x2] ok
  have m: "map (\<lambda>(c, sz, flt). (sz, flt)) (resized (events (snd (run env_ok files_4x2)))) =
     [((16, 16), LANCZOS), ((48, 48), LANCZOS), ((128, 128), LANCZOS)]"
    by blast
  have r: "(the_crop img_4x2, (16, 16), LANCZOS)
      \<in> set (resized (events (snd (run env_disk_full files_4x2))))"
    by (simp add: run_resized script_defs env_disk_full_def files_4x2_def the_box_def the_crop_def)
  from ok m r show ?thesis by simp
qed

end
